theory Spec2Isabelle
  imports Main "HOL-Library.Word"
begin

unbundle bit_operations_syntax

section \<open>Values of the runtime\<close>

text \<open>
  The backend is TypeScript on Node.js. A JavaScript string is a sequence of UTF-16 code
  units; a \<open>Buffer\<close> is a sequence of bytes. Every exception of the source is
  \<open>new Error(message)\<close>: a value carrying its message.
\<close>

type_synonym byte = "8 word"
type_synonym jsstring = "16 word list"
type_synonym buffer = "byte list"

datatype error = Error jsstring

fun message :: "error \<Rightarrow> jsstring" where
  "message (Error m) = m"

text \<open>A string literal of the source, written with Isabelle's (Latin-1) characters.\<close>

definition js :: "string \<Rightarrow> jsstring" where
  "js s = map (\<lambda>c. of_nat (of_char c)) s"

text \<open>
  JavaScript truthiness of an optional string: \<open>undefined\<close>, \<open>null\<close> and the empty
  string are falsy. \<open>a || b\<close> is \<open>a\<close> when \<open>a\<close> is truthy and \<open>b\<close> otherwise.
\<close>

fun truthy :: "jsstring option \<Rightarrow> bool" where
  "truthy None = False"
| "truthy (Some s) = (s \<noteq> [])"

fun or_else :: "jsstring option \<Rightarrow> jsstring \<Rightarrow> jsstring" where
  "or_else (Some s) d = (if s \<noteq> [] then s else d)"
| "or_else None d = d"

section \<open>Hex encoding of buffers\<close>

text \<open>
  \<open>buf.toString('hex')\<close> writes two lower-case hex digits for every byte.
  \<open>Buffer.from(s, 'hex')\<close> reads the string two characters at a time and stops, without
  any error, at the first pair that is not two hex digits (of either case); a last single
  character is ignored. This is the decoding loop of Node.js:
  \<^verbatim>\<open>for (i = 0; i < len && i * 2 + 1 < srcLen; ++i) {
    a = unhex(src[i * 2 + 0]); b = unhex(src[i * 2 + 1]);
    if (!~a || !~b) return i;
    buf[i] = (a << 4) | b; }\<close>
  \<open>unhex\<close> takes a byte: of a 16-bit code unit it sees the low byte only, so that a
  character such as U+0130, whose low byte is \<open>0x30\<close>, is read as the digit \<open>0\<close>.
\<close>

definition hexdigit :: "nat \<Rightarrow> 16 word" where
  "hexdigit d = of_nat (if d < 10 then 48 + d else 87 + d)"

definition unhex :: "16 word \<Rightarrow> nat option" where
  "unhex c =
     (let n = unat c mod 256 in
      if 48 \<le> n \<and> n \<le> 57 then Some (n - 48)
      else if 97 \<le> n \<and> n \<le> 102 then Some (n - 87)
      else if 65 \<le> n \<and> n \<le> 70 then Some (n - 55)
      else None)"

definition toString_hex :: "buffer \<Rightarrow> jsstring" where
  "toString_hex bs = concat (map (\<lambda>b. [hexdigit (unat b div 16), hexdigit (unat b mod 16)]) bs)"

fun Buffer_from_hex :: "jsstring \<Rightarrow> buffer" where
  "Buffer_from_hex (a # b # rest) =
     (case unhex a of
        None \<Rightarrow> []
      | Some x \<Rightarrow>
          (case unhex b of
             None \<Rightarrow> []
           | Some y \<Rightarrow> of_nat (16 * x + y) # Buffer_from_hex rest))"
| "Buffer_from_hex [a] = []"
| "Buffer_from_hex [] = []"

text \<open>
  What the specification calls a valid hex string: an even number of characters, each a
  hex digit (\<open>0\<close> to \<open>9\<close>, \<open>a\<close> to \<open>f\<close>, \<open>A\<close> to \<open>F\<close>).
\<close>

definition is_hex_digit :: "16 word \<Rightarrow> bool" where
  "is_hex_digit c \<longleftrightarrow>
     (let n = unat c in (48 \<le> n \<and> n \<le> 57) \<or> (97 \<le> n \<and> n \<le> 102) \<or> (65 \<le> n \<and> n \<le> 70))"

definition valid_hex :: "jsstring \<Rightarrow> bool" where
  "valid_hex s \<longleftrightarrow> even (length s) \<and> list_all is_hex_digit s"

section \<open>The encryption service: loading the key\<close>

definition keyLength :: nat where
  "keyLength = 32"

definition ivLength :: nat where
  "ivLength = 16"

definition tagLength :: nat where
  "tagLength = 16"

text \<open>
  \<open>getEncryptionKey\<close> reads \<open>process.env.ENCRYPTION_KEY\<close> (absent: \<open>None\<close>). The two
  throws are the configuration errors of the service; the log line written before each
  throw has no effect on the result.
\<close>

definition key_not_set :: error where
  "key_not_set = Error (js ''ENCRYPTION_KEY is not set in environment variables'')"

definition key_wrong_length :: error where
  "key_wrong_length = Error (js ''Encryption key must be 32 bytes (64 hex characters)'')"

definition getEncryptionKey :: "jsstring option \<Rightarrow> error + buffer" where
  "getEncryptionKey key =
     (if \<not> truthy key then Inl key_not_set
      else
        let keyBuffer = Buffer_from_hex (the key) in
        if length keyBuffer \<noteq> keyLength then Inl key_wrong_length
        else Inr keyBuffer)"

definition ConfigurationError :: "error \<Rightarrow> bool" where
  "ConfigurationError e \<longleftrightarrow> e = key_not_set \<or> e = key_wrong_length"

section \<open>UTF-8 encoding of strings\<close>

text \<open>
  \<open>cipher.update(plaintext, 'utf8', ...)\<close> encodes the string as UTF-8: a surrogate pair
  is one code point of four bytes, and a surrogate without its partner is written as
  U+FFFD (\<open>EF BF BD\<close>).
\<close>

definition is_high :: "16 word \<Rightarrow> bool" where
  "is_high u \<longleftrightarrow> 0xD800 \<le> unat u \<and> unat u \<le> 0xDBFF"

definition is_low :: "16 word \<Rightarrow> bool" where
  "is_low u \<longleftrightarrow> 0xDC00 \<le> unat u \<and> unat u \<le> 0xDFFF"

definition enc1 :: "16 word \<Rightarrow> buffer" where
  "enc1 u =
     (let n = unat u in
      if n < 0x80 then [of_nat n]
      else if n < 0x800 then [of_nat (0xC0 + n div 64), of_nat (0x80 + n mod 64)]
      else if 0xD800 \<le> n \<and> n \<le> 0xDFFF then [0xEF, 0xBF, 0xBD]
      else [of_nat (0xE0 + n div 4096), of_nat (0x80 + n div 64 mod 64), of_nat (0x80 + n mod 64)])"

definition enc4 :: "16 word \<Rightarrow> 16 word \<Rightarrow> buffer" where
  "enc4 h l =
     (let c = 0x10000 + (unat h - 0xD800) * 1024 + (unat l - 0xDC00) in
      [of_nat (0xF0 + c div 262144), of_nat (0x80 + c div 4096 mod 64),
       of_nat (0x80 + c div 64 mod 64), of_nat (0x80 + c mod 64)])"

fun utf8_encode :: "jsstring \<Rightarrow> buffer" where
  "utf8_encode (h # l # rest) =
     (if is_high h \<and> is_low l then enc4 h l @ utf8_encode rest
      else enc1 h @ utf8_encode (l # rest))"
| "utf8_encode [u] = enc1 u"
| "utf8_encode [] = []"

text \<open>
  Decoding (\<open>decipher.update(..., 'hex', 'utf8')\<close> and \<open>final('utf8')\<close>) is the UTF-8
  decoder of the Encoding Standard: \<open>needed\<close> continuation bytes are still expected for
  the code point \<open>cp\<close>, the next one within \<open>lower..upper\<close>. A byte that cannot start or
  continue a character yields U+FFFD; a byte that breaks a sequence is read again as the
  start of the next one.
\<close>

record decoder =
  cp :: nat
  needed :: nat
  lower :: nat
  upper :: nat

definition decoder0 :: decoder where
  "decoder0 = \<lparr>cp = 0, needed = 0, lower = 0x80, upper = 0xBF\<rparr>"

definition emit :: "nat \<Rightarrow> jsstring" where
  "emit c =
     (if c < 0x10000 then [of_nat c]
      else [of_nat (0xD800 + (c - 0x10000) div 1024), of_nat (0xDC00 + (c - 0x10000) mod 1024)])"

function utf8_dec :: "decoder \<Rightarrow> buffer \<Rightarrow> jsstring" where
  "utf8_dec d [] = (if needed d = 0 then [] else [0xFFFD])"
| "utf8_dec d (b # bs) =
     (let n = unat b in
      if needed d = 0 then
        if n < 0x80 then of_nat n # utf8_dec decoder0 bs
        else if 0xC2 \<le> n \<and> n \<le> 0xDF then
          utf8_dec \<lparr>cp = n - 0xC0, needed = 1, lower = 0x80, upper = 0xBF\<rparr> bs
        else if 0xE0 \<le> n \<and> n \<le> 0xEF then
          utf8_dec \<lparr>cp = n - 0xE0, needed = 2,
            lower = (if n = 0xE0 then 0xA0 else 0x80),
            upper = (if n = 0xED then 0x9F else 0xBF)\<rparr> bs
        else if 0xF0 \<le> n \<and> n \<le> 0xF4 then
          utf8_dec \<lparr>cp = n - 0xF0, needed = 3,
            lower = (if n = 0xF0 then 0x90 else 0x80),
            upper = (if n = 0xF4 then 0x8F else 0xBF)\<rparr> bs
        else 0xFFFD # utf8_dec decoder0 bs
      else if n < lower d \<or> upper d < n then 0xFFFD # utf8_dec decoder0 (b # bs)
      else if needed d = 1 then emit (cp d * 64 + (n - 0x80)) @ utf8_dec decoder0 bs
      else utf8_dec \<lparr>cp = cp d * 64 + (n - 0x80), needed = needed d - 1,
             lower = 0x80, upper = 0xBF\<rparr> bs)"
  by pat_completeness auto
termination
  by (relation "measure (\<lambda>(d, bs). 2 * length bs + (if needed d = 0 then 0 else 1))")
    (auto simp: decoder0_def)

definition utf8_decode :: "buffer \<Rightarrow> jsstring" where
  "utf8_decode bs = utf8_dec decoder0 bs"

text \<open>
  A string is well-formed UTF-16, that is, it has a UTF-8 encoding of its own, when every
  surrogate is half of a pair.
\<close>

fun well_formed :: "jsstring \<Rightarrow> bool" where
  "well_formed (h # l # rest) =
     (if is_high h then is_low l \<and> well_formed rest
      else \<not> is_low h \<and> well_formed (l # rest))"
| "well_formed [u] = (\<not> is_high u \<and> \<not> is_low u)"
| "well_formed [] = True"

section \<open>The process: random source, console, configuration\<close>

text \<open>
  What the functions read and write besides their arguments: the random source of
  \<open>crypto.randomBytes\<close> (a tape of bytes still to be handed out), the lines written
  to the console by the logger, and \<open>NODE_ENV\<close> (debug lines are printed in development
  only). The time stamp the logger puts before each line is left out.
\<close>

datatype LogLevel = INFO | ERROR | WARN | DEBUG

record world =
  rng :: "nat \<Rightarrow> byte"
  console :: "(LogLevel \<times> jsstring \<times> jsstring) list"
  development :: bool

fun log :: "LogLevel \<Rightarrow> jsstring \<Rightarrow> jsstring \<Rightarrow> world \<Rightarrow> world" where
  "log DEBUG m msg w =
     (if development w then w\<lparr>console := console w @ [(DEBUG, m, msg)]\<rparr> else w)"
| "log level m msg w = w\<lparr>console := console w @ [(level, m, msg)]\<rparr>"

definition logInfo :: "jsstring \<Rightarrow> jsstring \<Rightarrow> world \<Rightarrow> world" where
  "logInfo m msg w = log INFO m msg w"

definition logError :: "jsstring \<Rightarrow> jsstring \<Rightarrow> world \<Rightarrow> world" where
  "logError m msg w = log ERROR m msg w"

definition logWarn :: "jsstring \<Rightarrow> jsstring \<Rightarrow> world \<Rightarrow> world" where
  "logWarn m msg w = log WARN m msg w"

definition logDebug :: "jsstring \<Rightarrow> jsstring \<Rightarrow> world \<Rightarrow> world" where
  "logDebug m msg w = log DEBUG m msg w"

definition randomBytes :: "nat \<Rightarrow> world \<Rightarrow> buffer \<times> world" where
  "randomBytes n w = (map (rng w) [0..<n], w\<lparr>rng := (\<lambda>i. rng w (i + n))\<rparr>)"

text \<open>A number inside a template string.\<close>

function decimal :: "nat \<Rightarrow> jsstring" where
  "decimal n = (if n < 10 then [of_nat (48 + n)] else decimal (n div 10) @ [of_nat (48 + n mod 10)])"
  by pat_completeness auto
termination
  by (relation "measure id") auto

declare decimal.simps [simp del]

section \<open>The cipher of the platform\<close>

text \<open>
  \<open>crypto.createCipheriv('aes-256-gcm', key, iv)\<close> is Node's binding of AES-256 in
  Galois/Counter Mode (NIST SP 800-38D), not code of the repository. The mode fixes how
  the block cipher is used, and that much is modelled: the text is combined by XOR, byte
  by byte, with a key stream that depends on the key, the nonce and the position; the tag
  is a 128-bit value computed from the key, the nonce and the ciphertext. The two
  functions themselves (AES and GHASH) are the parameter \<open>P\<close>: every theorem below holds
  for whatever they compute.
\<close>

record gcm =
  keystream :: "buffer \<Rightarrow> buffer \<Rightarrow> nat \<Rightarrow> byte"
  tag :: "buffer \<Rightarrow> buffer \<Rightarrow> buffer \<Rightarrow> 128 word"

definition block_bytes :: "128 word \<Rightarrow> buffer" where
  "block_bytes t = map (\<lambda>i. ucast (drop_bit (8 * (15 - i)) t)) [0..<16]"

definition gctr :: "gcm \<Rightarrow> buffer \<Rightarrow> buffer \<Rightarrow> nat \<Rightarrow> buffer \<Rightarrow> buffer" where
  "gctr P key nonce off data =
     map (\<lambda>(i, b). b XOR keystream P key nonce i) (zip [off..<off + length data] data)"

text \<open>
  A cipher or decipher object: its key and nonce, the ciphertext it has seen so far and,
  for a decipher, the tag given to \<open>setAuthTag\<close>.
\<close>

record cipher =
  c_key :: buffer
  c_iv :: buffer
  c_text :: buffer
  c_tag :: "buffer option"

text \<open>
  \<open>createCipheriv\<close> and \<open>createDecipheriv\<close> throw when the nonce is empty or longer
  than the 128 bytes that GCM takes in OpenSSL 3, and when the key is not the 32 bytes of
  AES-256.
\<close>

definition createCipheriv :: "buffer \<Rightarrow> buffer \<Rightarrow> error + cipher" where
  "createCipheriv key nonce =
     (if nonce = [] \<or> 128 < length nonce then Inl (Error (js ''Invalid initialization vector''))
      else if length key \<noteq> 32 then Inl (Error (js ''Invalid key length''))
      else Inr \<lparr>c_key = key, c_iv = nonce, c_text = [], c_tag = None\<rparr>)"

definition createDecipheriv :: "buffer \<Rightarrow> buffer \<Rightarrow> error + cipher" where
  "createDecipheriv key nonce = createCipheriv key nonce"

definition cipher_update :: "gcm \<Rightarrow> cipher \<Rightarrow> buffer \<Rightarrow> buffer \<times> cipher" where
  "cipher_update P c data =
     (let out = gctr P (c_key c) (c_iv c) (length (c_text c)) data
      in (out, c\<lparr>c_text := c_text c @ out\<rparr>))"

definition decipher_update :: "gcm \<Rightarrow> cipher \<Rightarrow> buffer \<Rightarrow> buffer \<times> cipher" where
  "decipher_update P c data =
     (let out = gctr P (c_key c) (c_iv c) (length (c_text c)) data
      in (out, c\<lparr>c_text := c_text c @ data\<rparr>))"

text \<open>\<open>cipher.final()\<close>: a stream mode has no last block to write.\<close>

definition cipher_final :: "cipher \<Rightarrow> buffer" where
  "cipher_final c = []"

definition getAuthTag :: "gcm \<Rightarrow> cipher \<Rightarrow> buffer" where
  "getAuthTag P c = block_bytes (tag P (c_key c) (c_iv c) (c_text c))"

text \<open>
  \<open>decipher.setAuthTag\<close> takes a tag of 4, 8 or 12 to 16 bytes (the decipher was made
  without the \<open>authTagLength\<close> option) and throws on any other length.
  \<open>decipher.final()\<close> compares the tag it was given with as many leading bytes of the
  tag it computed, and throws when they differ.
\<close>

definition setAuthTag :: "cipher \<Rightarrow> buffer \<Rightarrow> error + cipher" where
  "setAuthTag c t =
     (if length t \<in> {4, 8, 12, 13, 14, 15, 16} then Inr (c\<lparr>c_tag := Some t\<rparr>)
      else Inl (Error (js ''Invalid authentication tag length: '' @ decimal (length t))))"

definition decipher_final :: "gcm \<Rightarrow> cipher \<Rightarrow> error + buffer" where
  "decipher_final P c =
     (case c_tag c of
        None \<Rightarrow> Inl (Error (js ''Unsupported state or unable to authenticate data''))
      | Some t \<Rightarrow>
          if take (length t) (getAuthTag P c) = t then Inr []
          else Inl (Error (js ''Unsupported state or unable to authenticate data'')))"

text \<open>
  \<open>update(data, 'hex', ...)\<close> refuses a string of odd length before decoding it.
\<close>

definition validateEncoding_hex :: "jsstring \<Rightarrow> error + unit" where
  "validateEncoding_hex s =
     (if odd (length s) then
        Inl (Error (js ''The argument 'encoding' is invalid for data of length ''
               @ decimal (length s) @ js ''. Received 'hex'' @ [0x27]))
      else Inr ())"

text \<open>
  The engine has no string of more than \<open>0x1fffffe8\<close> code units (V8 on 64-bit
  platforms, \<open>buffer.constants.MAX_STRING_LENGTH\<close>). Where \<open>update\<close> or \<open>final\<close> is to
  return its output as a hex string, two characters for every byte, and the string would
  be longer, it throws. (A plaintext, being a string, has an encoding of less than the
  \<open>2^31 - 1\<close> bytes that \<open>update\<close> takes.)
\<close>

definition MAX_STRING_LENGTH :: nat where
  "MAX_STRING_LENGTH = 536870888"

definition hex_output :: "buffer \<Rightarrow> error + jsstring" where
  "hex_output bs =
     (if MAX_STRING_LENGTH < 2 * length bs then
        Inl (Error (js ''Cannot create a string longer than 0x1fffffe8 characters''))
      else Inr (toString_hex bs))"

section \<open>The encryption service: encrypt and decrypt\<close>

record EncryptionResult =
  encryptedContent :: jsstring
  iv :: jsstring
  authTag :: jsstring

definition EncryptionError :: error where
  "EncryptionError = Error (js ''Failed to encrypt data'')"

definition DecryptionError :: error where
  "DecryptionError = Error (js ''Failed to decrypt data - data may be corrupted or tampered'')"

definition EncryptionService :: jsstring where
  "EncryptionService = js ''EncryptionService''"

text \<open>
  The body of the \<open>try\<close> block of \<open>encrypt\<close>, given the random bytes of the nonce.
  \<open>update(plaintext, 'utf8', 'hex')\<close> and \<open>final('hex')\<close> each make a string of their
  output and throw when it would be too long; the 16 bytes of the nonce and of the tag
  always fit.
\<close>

definition encrypt_try :: "gcm \<Rightarrow> buffer \<Rightarrow> buffer \<Rightarrow> jsstring \<Rightarrow> error + EncryptionResult" where
  "encrypt_try P encryptionKey nonce plaintext =
     (case createCipheriv encryptionKey nonce of
        Inl e \<Rightarrow> Inl e
      | Inr cipher \<Rightarrow>
          let (out, cipher1) = cipher_update P cipher (utf8_encode plaintext)
          in (case hex_output out of
                Inl e \<Rightarrow> Inl e
              | Inr encrypted0 \<Rightarrow>
                  (case hex_output (cipher_final cipher1) of
                     Inl e \<Rightarrow> Inl e
                   | Inr encrypted1 \<Rightarrow>
                       let encrypted = encrypted0 @ encrypted1;
                           t = getAuthTag P cipher1
                       in Inr \<lparr>encryptedContent = encrypted, iv = toString_hex nonce,
                                authTag = toString_hex t\<rparr>)))"

definition encrypt :: "gcm \<Rightarrow> buffer \<Rightarrow> jsstring \<Rightarrow> world \<Rightarrow> (error + EncryptionResult) \<times> world" where
  "encrypt P encryptionKey plaintext w =
     (let (nonce, w1) = randomBytes ivLength w in
      case encrypt_try P encryptionKey nonce plaintext of
        Inr r \<Rightarrow> (Inr r, logInfo EncryptionService (js ''Data encrypted successfully'') w1)
      | Inl e \<Rightarrow>
          (Inl EncryptionError,
           logError EncryptionService (js ''Encryption failed: '' @ message e) w1))"

text \<open>The body of the \<open>try\<close> block of \<open>decrypt\<close>.\<close>

definition decrypt_try :: "gcm \<Rightarrow> buffer \<Rightarrow> jsstring \<Rightarrow> jsstring \<Rightarrow> jsstring \<Rightarrow> error + jsstring" where
  "decrypt_try P encryptionKey encryptedHex ivHex authTagHex =
     (let nonce = Buffer_from_hex ivHex;
          t = Buffer_from_hex authTagHex
      in case createDecipheriv encryptionKey nonce of
           Inl e \<Rightarrow> Inl e
         | Inr decipher \<Rightarrow>
             (case setAuthTag decipher t of
                Inl e \<Rightarrow> Inl e
              | Inr decipher1 \<Rightarrow>
                  (case validateEncoding_hex encryptedHex of
                     Inl e \<Rightarrow> Inl e
                   | Inr _ \<Rightarrow>
                       let (out, decipher2) =
                             decipher_update P decipher1 (Buffer_from_hex encryptedHex)
                       in (case decipher_final P decipher2 of
                             Inl e \<Rightarrow> Inl e
                           | Inr out2 \<Rightarrow> Inr (utf8_decode (out @ out2))))))"

definition decrypt :: "gcm \<Rightarrow> buffer \<Rightarrow> jsstring \<Rightarrow> jsstring \<Rightarrow> jsstring \<Rightarrow> world \<Rightarrow> (error + jsstring) \<times> world" where
  "decrypt P encryptionKey encryptedHex ivHex authTagHex w =
     (case decrypt_try P encryptionKey encryptedHex ivHex authTagHex of
        Inr decrypted \<Rightarrow>
          (Inr decrypted, logInfo EncryptionService (js ''Data decrypted successfully'') w)
      | Inl e \<Rightarrow>
          (Inl DecryptionError,
           logError EncryptionService (js ''Decryption failed: '' @ message e) w))"

section \<open>The secrets controller: reading secrets\<close>

text \<open>
  A row of the \<open>secrets\<close> table as the queries select it, and a secret as a response
  carries it. A query of the database client resolves to \<open>{ data, error }\<close>, or the
  promise is rejected and \<open>await\<close> throws.
\<close>

record SecretRecord =
  rec_id :: jsstring
  rec_name :: "jsstring option"
  encrypted_content :: jsstring
  rec_iv :: jsstring
  auth_tag :: jsstring
  created_at :: jsstring
  updated_at :: jsstring

record SecretResponse =
  id :: jsstring
  name :: jsstring
  content :: jsstring
  createdAt :: jsstring
  updatedAt :: jsstring

datatype 'a query = Rejected error | Resolved "'a option" "error option"

text \<open>
  The JSON body of a response: \<open>{ success: false, error }\<close>, or \<open>{ success: true,
  data }\<close> with a list of secrets or with one secret.
\<close>

datatype body = Failure jsstring | Secrets "SecretResponse list" | Secret SecretResponse

record response =
  status :: nat
  json :: body

definition SecretsController :: jsstring where
  "SecretsController = js ''SecretsController''"

text \<open>The function given to \<open>map\<close> in \<open>getAllSecrets\<close>: one record, with its own \<open>try\<close>.\<close>

definition decryptOne :: "gcm \<Rightarrow> buffer \<Rightarrow> SecretRecord \<Rightarrow> world \<Rightarrow> SecretResponse \<times> world" where
  "decryptOne P encryptionKey secret w =
     (case decrypt P encryptionKey (encrypted_content secret) (rec_iv secret) (auth_tag secret) w of
        (Inr decryptedContent, w1) \<Rightarrow>
          (\<lparr>id = rec_id secret,
            name = or_else (rec_name secret) (js ''Untitled Secret''),
            content = decryptedContent,
            createdAt = created_at secret,
            updatedAt = updated_at secret\<rparr>, w1)
      | (Inl decryptError, w1) \<Rightarrow>
          (\<lparr>id = rec_id secret,
            name = or_else (rec_name secret) (js ''Untitled Secret''),
            content = js ''[Decryption Error]'',
            createdAt = created_at secret,
            updatedAt = updated_at secret\<rparr>,
           logError SecretsController
             (js ''Error decrypting secret '' @ rec_id secret @ js '': '' @ message decryptError) w1))"

text \<open>\<open>secrets.map(...)\<close>: the records in order, the console carried from one to the next.\<close>

fun mapDecrypt :: "gcm \<Rightarrow> buffer \<Rightarrow> SecretRecord list \<Rightarrow> world \<Rightarrow> SecretResponse list \<times> world" where
  "mapDecrypt P encryptionKey [] w = ([], w)"
| "mapDecrypt P encryptionKey (secret # secrets) w =
     (let (r, w1) = decryptOne P encryptionKey secret w;
          (rs, w2) = mapDecrypt P encryptionKey secrets w1
      in (r # rs, w2))"

definition getAllSecrets ::
  "gcm \<Rightarrow> buffer \<Rightarrow> jsstring \<Rightarrow> SecretRecord list query \<Rightarrow> world \<Rightarrow> response \<times> world" where
  "getAllSecrets P encryptionKey userId q w =
     (let w0 = logDebug SecretsController (js ''Fetching secrets for user: '' @ userId) w in
      case q of
        Rejected e \<Rightarrow>
          (\<lparr>status = 500, json = Failure (js ''Internal server error'')\<rparr>,
           logError SecretsController (js ''Error in getAllSecrets: '' @ message e) w0)
      | Resolved secrets (Some e) \<Rightarrow>
          (\<lparr>status = 500, json = Failure (js ''Failed to fetch secrets'')\<rparr>,
           logError SecretsController (js ''Error fetching secrets: '' @ message e) w0)
      | Resolved secrets None \<Rightarrow>
          let (decryptedSecrets, w1) =
                mapDecrypt P encryptionKey (case secrets of None \<Rightarrow> [] | Some l \<Rightarrow> l) w0
          in (\<lparr>status = 200, json = Secrets decryptedSecrets\<rparr>,
              logInfo SecretsController
                (js ''Retrieved '' @ decimal (length decryptedSecrets) @ js '' secrets for user '' @ userId)
                w1))"

definition getSecretById ::
  "gcm \<Rightarrow> buffer \<Rightarrow> jsstring \<Rightarrow> jsstring \<Rightarrow> SecretRecord query \<Rightarrow> world \<Rightarrow> response \<times> world" where
  "getSecretById P encryptionKey userId secretId q w =
     (let w0 = logDebug SecretsController
                 (js ''Fetching secret '' @ secretId @ js '' for user '' @ userId) w in
      case q of
        Rejected e \<Rightarrow>
          (\<lparr>status = 500, json = Failure (js ''Internal server error'')\<rparr>,
           logError SecretsController (js ''Error in getSecretById: '' @ message e) w0)
      | Resolved (Some secret) None \<Rightarrow>
          (case decrypt P encryptionKey (encrypted_content secret) (rec_iv secret) (auth_tag secret) w0 of
             (Inr decryptedContent, w1) \<Rightarrow>
               (\<lparr>status = 200,
                 json = Secret \<lparr>id = rec_id secret,
                   name = or_else (rec_name secret) (js ''Untitled Secret''),
                   content = decryptedContent,
                   createdAt = created_at secret,
                   updatedAt = updated_at secret\<rparr>\<rparr>, w1)
           | (Inl e, w1) \<Rightarrow>
               (\<lparr>status = 500, json = Failure (js ''Internal server error'')\<rparr>,
                logError SecretsController (js ''Error in getSecretById: '' @ message e) w1))
      | Resolved _ _ \<Rightarrow>
          (\<lparr>status = 404, json = Failure (js ''Secret not found'')\<rparr>,
           logWarn SecretsController
             (js ''Secret '' @ secretId @ js '' not found for user '' @ userId) w0))"

text \<open>
  The row that \<open>createSecret\<close> inserts for an envelope, with the id and the time stamp
  the database gives it.
\<close>

definition stored :: "jsstring \<Rightarrow> jsstring option \<Rightarrow> jsstring \<Rightarrow> EncryptionResult \<Rightarrow> SecretRecord" where
  "stored i n t r =
     \<lparr>rec_id = i, rec_name = Some (or_else n (js ''Untitled Secret'')),
      encrypted_content = encryptedContent r, rec_iv = iv r, auth_tag = authTag r,
      created_at = t, updated_at = t\<rparr>"

section \<open>Values of the specification's scenarios\<close>

text \<open>The key of 64 zero hex characters.\<close>

definition zero_key_hex :: jsstring where
  "zero_key_hex = replicate 64 0x30"

text \<open>Tampering: bit \<open>i\<close> of byte \<open>j\<close> of a buffer is flipped.\<close>

definition flip :: "nat \<Rightarrow> nat \<Rightarrow> buffer \<Rightarrow> buffer" where
  "flip j i bs = bs[j := flip_bit i (bs ! j)]"

section \<open>Facts about the hex codec\<close>

lemma unat_hexdigit: "d < 16 \<Longrightarrow> unat (hexdigit d) = (if d < 10 then 48 + d else 87 + d)"
  by (simp add: hexdigit_def unat_of_nat)

lemma unhex_hexdigit: "d < 16 \<Longrightarrow> unhex (hexdigit d) = Some d"
  by (simp add: unhex_def unat_hexdigit Let_def)

lemma unat_byte_less: "unat (b :: byte) < 256"
  using unsigned_less [of b, where ?'a = nat] by simp

lemma byte_of_digits: "of_nat (16 * (unat b div 16) + unat b mod 16) = (b :: byte)"
  by simp

lemma Buffer_from_hex_append:
  "Buffer_from_hex (toString_hex bs @ rest) = bs @ Buffer_from_hex rest"
proof (induction bs)
  case Nil
  show ?case by (simp add: toString_hex_def)
next
  case (Cons b bs)
  have hi: "unhex (hexdigit (unat b div 16)) = Some (unat b div 16)"
    by (rule unhex_hexdigit) (use unat_byte_less [of b] in simp)
  have lo: "unhex (hexdigit (unat b mod 16)) = Some (unat b mod 16)"
    by (rule unhex_hexdigit) simp
  have "toString_hex (b # bs) = hexdigit (unat b div 16) # hexdigit (unat b mod 16) # toString_hex bs"
    by (simp add: toString_hex_def)
  with Cons hi lo show ?case
    by (simp add: byte_of_digits)
qed

lemma Buffer_from_hex_toString_hex: "Buffer_from_hex (toString_hex bs) = bs"
  using Buffer_from_hex_append [of bs "[]"] by simp

lemma length_toString_hex: "length (toString_hex bs) = 2 * length bs"
  by (induction bs) (simp_all add: toString_hex_def)

lemma is_hex_digit_hexdigit: "d < 16 \<Longrightarrow> is_hex_digit (hexdigit d)"
  by (simp add: is_hex_digit_def unat_hexdigit Let_def)

lemma unhex_hex_digit: "is_hex_digit c \<Longrightarrow> unhex c \<noteq> None"
  by (auto simp: is_hex_digit_def unhex_def Let_def)

lemma valid_hex_toString_hex: "valid_hex (toString_hex bs)"
proof -
  have "list_all is_hex_digit (toString_hex bs)"
  proof (induction bs)
    case Nil
    show ?case by (simp add: toString_hex_def)
  next
    case (Cons b bs)
    have "is_hex_digit (hexdigit (unat b div 16))"
      using is_hex_digit_hexdigit [of "unat b div 16"] unat_byte_less [of b] by simp
    moreover have "is_hex_digit (hexdigit (unat b mod 16))"
      using is_hex_digit_hexdigit [of "unat b mod 16"] by simp
    ultimately show ?case using Cons by (simp add: toString_hex_def)
  qed
  then show ?thesis by (simp add: valid_hex_def length_toString_hex)
qed

section \<open>UTF-8: decoding what was encoded\<close>

lemma unat_of_nat_byte: "x < 256 \<Longrightarrow> unat (of_nat x :: byte) = x"
  by (simp add: unat_of_nat)

lemma unat_unit_less: "unat (u :: 16 word) < 65536"
  using unsigned_less [of u, where ?'a = nat] by simp

lemma dec1:
  assumes "unat b < 128"
  shows "utf8_dec decoder0 (b # bs) = of_nat (unat b) # utf8_dec decoder0 bs"
  using assms by (simp add: Let_def decoder0_def)

lemma dec2:
  assumes "unat b0 = 192 + q" "2 \<le> q" "q \<le> 31" "unat b1 = 128 + r" "r < 64"
  shows "utf8_dec decoder0 (b0 # b1 # bs) = emit (q * 64 + r) @ utf8_dec decoder0 bs"
  using assms by (simp add: Let_def decoder0_def)

lemma dec3:
  assumes "unat b0 = 224 + q" "q \<le> 15" "unat b1 = 128 + r" "r < 64" "unat b2 = 128 + s" "s < 64"
    and "q = 0 \<longrightarrow> 32 \<le> r" "q = 13 \<longrightarrow> r < 32"
  shows "utf8_dec decoder0 (b0 # b1 # b2 # bs) = emit ((q * 64 + r) * 64 + s) @ utf8_dec decoder0 bs"
  using assms by (auto simp: Let_def decoder0_def)

lemma dec4:
  assumes "unat b0 = 240 + q" "q \<le> 4" "unat b1 = 128 + r" "r < 64" "unat b2 = 128 + s" "s < 64"
    "unat b3 = 128 + t" "t < 64"
    and "q = 0 \<longrightarrow> 16 \<le> r" "q = 4 \<longrightarrow> r < 16"
  shows "utf8_dec decoder0 (b0 # b1 # b2 # b3 # bs) = emit (((q * 64 + r) * 64 + s) * 64 + t) @ utf8_dec decoder0 bs"
  using assms by (auto simp: Let_def decoder0_def)

lemma split3:
  fixes n :: nat
  assumes "n < 65536"
  defines "q \<equiv> n div 4096" and "r \<equiv> n div 64 mod 64" and "s \<equiv> n mod 64"
  shows "n = (q * 64 + r) * 64 + s" "q \<le> 15" "r < 64" "s < 64"
proof -
  have q: "q = n div 64 div 64"
    by (simp add: q_def div_mult2_eq [symmetric])
  show "n = (q * 64 + r) * 64 + s"
    unfolding q r_def s_def by simp
  have "n div 4096 < 16"
    using assms(1) by (simp add: less_mult_imp_div_less)
  then show "q \<le> 15" by (simp add: q_def)
  show "r < 64" "s < 64" by (simp_all add: r_def s_def)
qed

lemma split4:
  fixes c :: nat
  assumes "c < 1114112"
  defines "q \<equiv> c div 262144" and "r \<equiv> c div 4096 mod 64" and "s \<equiv> c div 64 mod 64" and "t \<equiv> c mod 64"
  shows "c = ((q * 64 + r) * 64 + s) * 64 + t" "q \<le> 4" "r < 64" "s < 64" "t < 64"
proof -
  have r: "r = c div 64 div 64 mod 64"
    by (simp add: r_def div_mult2_eq [symmetric])
  have q: "q = c div 64 div 64 div 64"
    by (simp add: q_def div_mult2_eq [symmetric])
  show "c = ((q * 64 + r) * 64 + s) * 64 + t"
    unfolding q r s_def t_def by simp
  have "c div 262144 < 5"
    using assms(1) by (simp add: less_mult_imp_div_less)
  then show "q \<le> 4" by (simp add: q_def)
  show "r < 64" "s < 64" "t < 64" by (simp_all add: r_def s_def t_def)
qed


lemma emit_unit: "emit (unat (u :: 16 word)) = [u]"
  using unat_unit_less [of u] by (simp add: emit_def)

lemma dec_enc1:
  assumes "\<not> is_high u" "\<not> is_low u"
  shows "utf8_dec decoder0 (enc1 u @ bs) = u # utf8_dec decoder0 bs"
proof -
  define n where "n = unat u"
  have n16: "n < 65536" unfolding n_def by (rule unat_unit_less)
  have ns: "n < 55296 \<or> 57343 < n"
    using assms unfolding is_high_def is_low_def n_def by linarith
  consider (a) "n < 128" | (b) "128 \<le> n" "n < 2048" | (c) "2048 \<le> n"
    by linarith
  then show ?thesis
  proof cases
    case a
    then have "enc1 u = [of_nat n]" by (simp add: enc1_def n_def)
    moreover have "unat (of_nat n :: byte) = n"
      using a by (intro unat_of_nat_byte) simp
    ultimately show ?thesis
      using a dec1 [of "of_nat n" bs] by (simp add: n_def)
  next
    case b
    define q r where "q = n div 64" and "r = n mod 64"
    have n: "n = q * 64 + r" by (simp add: q_def r_def)
    have "q < 32" using b by (simp add: q_def less_mult_imp_div_less)
    moreover have "2 \<le> q" using b by (simp add: q_def)
    moreover have "r < 64" by (simp add: r_def)
    ultimately have qr: "2 \<le> q" "q \<le> 31" "r < 64" by simp_all
    have enc: "enc1 u = [of_nat (192 + q), of_nat (128 + r)]"
      using b unfolding enc1_def Let_def n_def [symmetric] q_def r_def by simp
    have "utf8_dec decoder0 (of_nat (192 + q) # of_nat (128 + r) # bs) = emit (q * 64 + r) @ utf8_dec decoder0 bs"
      using qr by (intro dec2 unat_of_nat_byte) simp_all
    then show ?thesis
      using emit_unit [of u] by (simp only: enc n [symmetric] n_def append_Cons append_Nil)
  next
    case c
    define q r s where "q = n div 4096" and "r = n div 64 mod 64" and "s = n mod 64"
    note sp = split3 [OF n16, folded q_def r_def s_def]
    have lo: "q = 0 \<longrightarrow> 32 \<le> r"
      using c sp by (auto simp: distrib_right)
    have hi: "q = 13 \<longrightarrow> r < 32"
      using ns c sp by (auto simp: distrib_right)
    have "\<not> n < 128" "\<not> n < 2048" "\<not> (55296 \<le> n \<and> n \<le> 57343)"
      using c ns by linarith+
    then have enc: "enc1 u = [of_nat (224 + q), of_nat (128 + r), of_nat (128 + s)]"
      unfolding enc1_def Let_def n_def [symmetric] q_def r_def s_def by auto
    have "utf8_dec decoder0 (of_nat (224 + q) # of_nat (128 + r) # of_nat (128 + s) # bs)
        = emit ((q * 64 + r) * 64 + s) @ utf8_dec decoder0 bs"
      using sp lo hi by (intro dec3 unat_of_nat_byte) simp_all
    then show ?thesis
      using emit_unit [of u] by (simp only: enc sp(1) [symmetric] n_def append_Cons append_Nil)
  qed
qed

lemma dec_enc4:
  assumes "is_high h" "is_low l"
  shows "utf8_dec decoder0 (enc4 h l @ bs) = h # l # utf8_dec decoder0 bs"
proof -
  define x y where "x = unat h - 55296" and "y = unat l - 56320"
  define c where "c = 65536 + x * 1024 + y"
  have xy: "x < 1024" "y < 1024" "unat h = 55296 + x" "unat l = 56320 + y"
    using assms unfolding is_high_def is_low_def x_def y_def by linarith+
  have c: "65536 \<le> c" "c < 1114112"
    using xy unfolding c_def by linarith+
  define q r s t where "q = c div 262144" and "r = c div 4096 mod 64"
    and "s = c div 64 mod 64" and "t = c mod 64"
  note sp = split4 [OF c(2), folded q_def r_def s_def t_def]
  have lo: "q = 0 \<longrightarrow> 16 \<le> r"
    using c sp by (auto simp: distrib_right)
  have hi: "q = 4 \<longrightarrow> r < 16"
    using c sp by (auto simp: distrib_right)
  have enc: "enc4 h l = [of_nat (240 + q), of_nat (128 + r), of_nat (128 + s), of_nat (128 + t)]"
    unfolding enc4_def Let_def x_def [symmetric] y_def [symmetric] c_def [symmetric]
      q_def r_def s_def t_def by simp
  have dec: "utf8_dec decoder0 (of_nat (240 + q) # of_nat (128 + r) # of_nat (128 + s) # of_nat (128 + t) # bs)
      = emit (((q * 64 + r) * 64 + s) * 64 + t) @ utf8_dec decoder0 bs"
    using sp lo hi by (intro dec4 unat_of_nat_byte) simp_all
  have "(c - 65536) div 1024 = x" "(c - 65536) mod 1024 = y"
    using xy by (simp_all add: c_def)
  then have "emit c = [of_nat (55296 + x), of_nat (56320 + y)]"
    using c by (simp add: emit_def)
  also have "\<dots> = [h, l]"
    unfolding xy(3,4) [symmetric] by simp
  finally show ?thesis
    using dec by (simp only: enc sp(1) [symmetric] append_Cons append_Nil)
qed

lemma utf8_roundtrip: "well_formed s \<Longrightarrow> utf8_dec decoder0 (utf8_encode s @ bs) = s @ utf8_dec decoder0 bs"
proof (induction s rule: utf8_encode.induct)
  case (1 h l rest)
  show ?case
  proof (cases "is_high h")
    case True
    with "1.prems" have l: "is_low l" and r: "well_formed rest" by simp_all
    from True l "1.IH"(1) r show ?thesis
      by (simp add: dec_enc4)
  next
    case False
    with "1.prems" have nl: "\<not> is_low h" and r: "well_formed (l # rest)" by simp_all
    from False nl "1.IH"(2) r show ?thesis
      by (simp add: dec_enc1)
  qed
next
  case (2 u)
  then show ?case by (simp add: dec_enc1)
next
  case 3
  show ?case by simp
qed

lemma utf8_decode_encode: "well_formed s \<Longrightarrow> utf8_decode (utf8_encode s) = s"
  using utf8_roundtrip [of s "[]"] by (simp add: utf8_decode_def decoder0_def)

section \<open>The envelope\<close>

lemma length_gctr: "length (gctr P key nonce off data) = length data"
  by (simp add: gctr_def)

lemma xor_twice: "(a XOR k) XOR k = (a :: byte)"
  by (simp add: xor.assoc)

lemma gctr_gctr: "gctr P key nonce off (gctr P key nonce off data) = data"
  by (rule nth_equalityI) (simp_all add: gctr_def xor_twice)

lemma length_block_bytes: "length (block_bytes t) = 16"
  by (simp add: block_bytes_def)

lemma length_enc1: "length (enc1 u) \<le> 3"
  by (simp add: enc1_def Let_def)

lemma length_enc4: "length (enc4 h l) = 4"
  by (simp add: enc4_def Let_def)

lemma length_utf8_encode: "length (utf8_encode s) \<le> 3 * length s"
proof (induction s rule: utf8_encode.induct)
  case (1 h l rest)
  then show ?case
    using length_enc1 [of h] by (auto simp: length_enc4)
next
  case (2 u)
  show ?case using length_enc1 [of u] by simp
next
  case 3
  show ?case by simp
qed

lemma utf8_encode_Cons:
  assumes "\<not> is_high u"
  shows "utf8_encode (u # rest) = enc1 u @ utf8_encode rest"
  using assms by (cases rest) simp_all

lemma length_utf8_encode_ascii:
  assumes "unat a < 128"
  shows "length (utf8_encode (replicate n a)) = n"
proof (induction n)
  case 0
  show ?case by simp
next
  case (Suc n)
  have "\<not> is_high a" using assms by (simp add: is_high_def)
  moreover have "length (enc1 a) = 1" using assms by (simp add: enc1_def)
  ultimately show ?case using Suc by (simp add: utf8_encode_Cons)
qed

lemma well_formed_Cons:
  assumes "\<not> is_high u" "\<not> is_low u"
  shows "well_formed (u # rest) = well_formed rest"
  using assms by (cases rest) simp_all

lemma well_formed_replicate:
  assumes "\<not> is_high u" "\<not> is_low u"
  shows "well_formed (replicate n u)"
  by (induction n) (simp_all add: well_formed_Cons [OF assms])

lemma short_fits:
  assumes "length s \<le> 10000"
  shows "2 * length (utf8_encode s) \<le> MAX_STRING_LENGTH"
  using assms length_utf8_encode [of s] by (simp add: MAX_STRING_LENGTH_def)

lemma encrypt_try_ok:
  assumes "length key = 32" "nonce \<noteq> []" "length nonce \<le> 128"
    and "2 * length (utf8_encode s) \<le> MAX_STRING_LENGTH"
  shows "encrypt_try P key nonce s =
    Inr \<lparr>encryptedContent = toString_hex (gctr P key nonce 0 (utf8_encode s)),
         iv = toString_hex nonce,
         authTag = toString_hex (block_bytes (tag P key nonce (gctr P key nonce 0 (utf8_encode s))))\<rparr>"
  using assms
  by (simp add: encrypt_try_def createCipheriv_def cipher_update_def cipher_final_def
      getAuthTag_def Let_def hex_output_def length_gctr toString_hex_def)

lemma encrypt_try_too_long:
  assumes "MAX_STRING_LENGTH < 2 * length (utf8_encode s)"
  shows "\<exists>e. encrypt_try P key nonce s = Inl e"
  using assms
  by (simp add: encrypt_try_def createCipheriv_def cipher_update_def Let_def hex_output_def
      length_gctr)

lemma decrypt_try_eq:
  assumes "length key = 32" "Buffer_from_hex ivHex \<noteq> []" "length (Buffer_from_hex ivHex) \<le> 128"
    "length (Buffer_from_hex tagHex) \<in> {4, 8, 12, 13, 14, 15, 16}" "even (length ctHex)"
  shows "decrypt_try P key ctHex ivHex tagHex =
    (if take (length (Buffer_from_hex tagHex))
          (block_bytes (tag P key (Buffer_from_hex ivHex) (Buffer_from_hex ctHex)))
        = Buffer_from_hex tagHex
     then Inr (utf8_decode (gctr P key (Buffer_from_hex ivHex) 0 (Buffer_from_hex ctHex)))
     else Inl (Error (js ''Unsupported state or unable to authenticate data'')))"
  using assms
  by (simp add: decrypt_try_def createDecipheriv_def createCipheriv_def setAuthTag_def
      validateEncoding_hex_def decipher_update_def decipher_final_def getAuthTag_def Let_def)

lemma nonce_nonempty: "fst (randomBytes ivLength w) \<noteq> []"
  by (simp add: randomBytes_def ivLength_def)

lemma length_nonce: "length (fst (randomBytes ivLength w)) = 16"
  by (simp add: randomBytes_def ivLength_def)

lemma encrypt_eq:
  fixes P :: gcm and key :: buffer and s :: jsstring and w :: world
  assumes "length key = 32" and "2 * length (utf8_encode s) \<le> MAX_STRING_LENGTH"
  defines "nonce \<equiv> fst (randomBytes ivLength w)"
  defines "ct \<equiv> gctr P key nonce 0 (utf8_encode s)"
  shows "fst (encrypt P key s w) =
    Inr \<lparr>encryptedContent = toString_hex ct, iv = toString_hex nonce,
         authTag = toString_hex (block_bytes (tag P key nonce ct))\<rparr>"
proof -
  have "nonce \<noteq> []" "length nonce \<le> 128"
    unfolding nonce_def by (simp_all add: nonce_nonempty length_nonce)
  from encrypt_try_ok [OF assms(1) this assms(2), of P] show ?thesis
    by (simp add: encrypt_def nonce_def ct_def split_beta Let_def)
qed

lemma encrypt_too_long:
  assumes "MAX_STRING_LENGTH < 2 * length (utf8_encode s)"
  shows "fst (encrypt P key s w) = Inl EncryptionError"
  using encrypt_try_too_long [OF assms, of P key "fst (randomBytes ivLength w)"]
  by (auto simp: encrypt_def split_beta)

lemma encrypt_wrong_key:
  assumes "length key \<noteq> 32"
  shows "fst (encrypt P key s w) = Inl EncryptionError"
  using assms by (simp add: encrypt_def encrypt_try_def createCipheriv_def split_beta)

lemma nonce_ok:
  "fst (randomBytes ivLength w) \<noteq> []" "length (fst (randomBytes ivLength w)) \<le> 128"
  by (simp_all add: nonce_nonempty length_nonce)

lemma encrypt_returned:
  assumes "fst (encrypt P key s w) = Inr r"
  shows "length key = 32" and "2 * length (utf8_encode s) \<le> MAX_STRING_LENGTH"
proof -
  show "length key = 32"
    using assms encrypt_wrong_key [of key P s w] by (cases "length key = 32") simp_all
  show "2 * length (utf8_encode s) \<le> MAX_STRING_LENGTH"
    using assms encrypt_too_long [of s P key w]
    by (cases "MAX_STRING_LENGTH < 2 * length (utf8_encode s)") simp_all
qed

lemma decrypt_fst:
  "fst (decrypt P key c n t w) =
     (case decrypt_try P key c n t of Inr d \<Rightarrow> Inr d | Inl e \<Rightarrow> Inl DecryptionError)"
  by (simp add: decrypt_def split: sum.split)

lemma encrypt_result:
  assumes "fst (encrypt P key s w) = Inr r"
  shows "r = \<lparr>encryptedContent =
                toString_hex (gctr P key (fst (randomBytes ivLength w)) 0 (utf8_encode s)),
              iv = toString_hex (fst (randomBytes ivLength w)),
              authTag = toString_hex (block_bytes (tag P key (fst (randomBytes ivLength w))
                (gctr P key (fst (randomBytes ivLength w)) 0 (utf8_encode s))))\<rparr>"
  using encrypt_eq [OF encrypt_returned [OF assms], of P w] assms by simp

lemma decrypt_envelope:
  assumes "length key = 32" "nonce \<noteq> []" "length nonce \<le> 128"
  shows "fst (decrypt P key (toString_hex ct) (toString_hex nonce)
            (toString_hex (block_bytes (tag P key nonce ct))) w)
         = Inr (utf8_decode (gctr P key nonce 0 ct))"
proof -
  have "decrypt_try P key (toString_hex ct) (toString_hex nonce)
          (toString_hex (block_bytes (tag P key nonce ct)))
        = Inr (utf8_decode (gctr P key nonce 0 ct))"
    using assms
    by (subst decrypt_try_eq)
      (simp_all add: Buffer_from_hex_toString_hex length_block_bytes length_toString_hex)
  then show ?thesis by (simp add: decrypt_fst)
qed

text \<open>
  Claim C1. For every well-formed plaintext string of 0 to 10,000 code units, and for
  every longer one whose ciphertext in hex is still a string that the engine can make,
  and for every 32-byte key, \<open>encrypt\<close> returns an envelope, and \<open>decrypt\<close> of that
  envelope under the same key returns the plaintext, code unit for code unit. The random
  nonce, the console and the cipher's key stream and tag function are arbitrary.
\<close>

theorem round_trip:
  assumes "length key = 32" and "well_formed s"
    and "length s \<le> 10000 \<or> 2 * length (utf8_encode s) \<le> MAX_STRING_LENGTH"
  shows "\<exists>r. fst (encrypt P key s w) = Inr r \<and>
    fst (decrypt P key (encryptedContent r) (iv r) (authTag r) w') = Inr s"
proof -
  define nonce where "nonce = fst (randomBytes ivLength w)"
  define ct where "ct = gctr P key nonce 0 (utf8_encode s)"
  define r where "r = \<lparr>encryptedContent = toString_hex ct, iv = toString_hex nonce,
         authTag = toString_hex (block_bytes (tag P key nonce ct))\<rparr>"
  have fits: "2 * length (utf8_encode s) \<le> MAX_STRING_LENGTH"
    using assms(3) short_fits [of s] by blast
  have enc: "fst (encrypt P key s w) = Inr r"
    unfolding r_def ct_def nonce_def by (rule encrypt_eq [OF assms(1) fits])
  have "nonce \<noteq> []" "length nonce \<le> 128"
    unfolding nonce_def by (simp_all add: nonce_nonempty length_nonce)
  from decrypt_envelope [OF assms(1) this, of P ct w']
  have "fst (decrypt P key (encryptedContent r) (iv r) (authTag r) w')
      = Inr (utf8_decode (gctr P key nonce 0 ct))"
    by (simp add: r_def)
  also have "gctr P key nonce 0 ct = utf8_encode s"
    unfolding ct_def by (rule gctr_gctr)
  also have "utf8_decode (utf8_encode s) = s"
    using assms(2) by (rule utf8_decode_encode)
  finally show ?thesis using enc by blast
qed

theorem round_trip_witness:
  "\<forall>P w w'. length (replicate 32 (0 :: byte)) = 32 \<and>
     well_formed [0x68, 0xE9, 0x20AC, 0xD83D, 0xDE00] \<and>
     length [0x68, 0xE9, 0x20AC, 0xD83D, 0xDE00 :: 16 word] \<le> 10000 \<and>
     (\<exists>r. fst (encrypt P (replicate 32 0) [0x68, 0xE9, 0x20AC, 0xD83D, 0xDE00] w) = Inr r \<and>
       fst (decrypt P (replicate 32 0) (encryptedContent r) (iv r) (authTag r) w')
         = Inr [0x68, 0xE9, 0x20AC, 0xD83D, 0xDE00]) \<and>
     well_formed [] \<and>
     (\<exists>r. fst (encrypt P (replicate 32 0) [] w) = Inr r \<and>
       fst (decrypt P (replicate 32 0) (encryptedContent r) (iv r) (authTag r) w') = Inr []) \<and>
     well_formed (replicate 10000 0x20AC) \<and> length (replicate 10000 (0x20AC :: 16 word)) \<le> 10000 \<and>
     (\<exists>r. fst (encrypt P (replicate 32 0) (replicate 10000 0x20AC) w) = Inr r \<and>
       fst (decrypt P (replicate 32 0) (encryptedContent r) (iv r) (authTag r) w')
         = Inr (replicate 10000 0x20AC))"
proof (intro allI conjI)
  show len: "length (replicate 32 (0 :: byte)) = 32" by simp
  show wf: "well_formed [0x68, 0xE9, 0x20AC, 0xD83D, 0xDE00]"
    by (simp add: is_high_def is_low_def)
  show l: "length [0x68, 0xE9, 0x20AC, 0xD83D, 0xDE00 :: 16 word] \<le> 10000" by simp
  show wf0: "well_formed []" by simp
  have l0: "length ([] :: jsstring) \<le> 10000" by simp
  show wfn: "well_formed (replicate 10000 0x20AC)"
    by (rule well_formed_replicate) (simp_all add: is_high_def is_low_def)
  show ln: "length (replicate 10000 (0x20AC :: 16 word)) \<le> 10000" by simp
  fix P w w'
  from round_trip [OF len wf disjI1 [OF l], of P w w']
  show "\<exists>r. fst (encrypt P (replicate 32 0) [0x68, 0xE9, 0x20AC, 0xD83D, 0xDE00] w) = Inr r \<and>
       fst (decrypt P (replicate 32 0) (encryptedContent r) (iv r) (authTag r) w')
         = Inr [0x68, 0xE9, 0x20AC, 0xD83D, 0xDE00]" .
  from round_trip [OF len wf0 disjI1 [OF l0], of P w w']
  show "\<exists>r. fst (encrypt P (replicate 32 0) [] w) = Inr r \<and>
       fst (decrypt P (replicate 32 0) (encryptedContent r) (iv r) (authTag r) w') = Inr []" .
  from round_trip [OF len wfn disjI1 [OF ln], of P w w']
  show "\<exists>r. fst (encrypt P (replicate 32 0) (replicate 10000 0x20AC) w) = Inr r \<and>
       fst (decrypt P (replicate 32 0) (encryptedContent r) (iv r) (authTag r) w')
         = Inr (replicate 10000 0x20AC)" .
qed

text \<open>
  Claim C7. The envelope returned by \<open>encrypt\<close>: the ciphertext decodes from hex to as
  many bytes as the UTF-8 encoding of the plaintext has, the nonce to 16 bytes, the tag to
  16 bytes, and the three fields are hex strings.
\<close>

theorem envelope_shape:
  assumes "fst (encrypt P key s w) = Inr r"
  shows "length (Buffer_from_hex (encryptedContent r)) = length (utf8_encode s) \<and>
    length (Buffer_from_hex (iv r)) = 16 \<and>
    length (Buffer_from_hex (authTag r)) = 16 \<and>
    valid_hex (encryptedContent r) \<and> valid_hex (iv r) \<and> valid_hex (authTag r)"
proof -
  note ok = encrypt_returned [OF assms]
  from encrypt_eq [OF ok, of P w] assms show ?thesis
    by (auto simp: Buffer_from_hex_toString_hex valid_hex_toString_hex length_gctr
        length_block_bytes length_nonce)
qed

theorem envelope_shape_witness:
  "\<forall>P w. \<exists>r. fst (encrypt P (replicate 32 0) [0x68, 0xE9, 0x20AC] w) = Inr r \<and>
    length (Buffer_from_hex (encryptedContent r)) = length (utf8_encode [0x68, 0xE9, 0x20AC]) \<and>
    length (Buffer_from_hex (iv r)) = 16 \<and>
    length (Buffer_from_hex (authTag r)) = 16 \<and>
    valid_hex (encryptedContent r) \<and> valid_hex (iv r) \<and> valid_hex (authTag r)"
proof (intro allI)
  fix P w
  have "length (replicate 32 (0 :: byte)) = 32" by simp
  moreover have "2 * length (utf8_encode [0x68, 0xE9, 0x20AC]) \<le> MAX_STRING_LENGTH"
    by (rule short_fits) simp
  ultimately obtain r where r: "fst (encrypt P (replicate 32 0) [0x68, 0xE9, 0x20AC] w) = Inr r"
    using encrypt_eq [of "replicate 32 0" "[0x68, 0xE9, 0x20AC]" P w] by blast
  from envelope_shape [OF r] r
  show "\<exists>r. fst (encrypt P (replicate 32 0) [0x68, 0xE9, 0x20AC] w) = Inr r \<and>
    length (Buffer_from_hex (encryptedContent r)) = length (utf8_encode [0x68, 0xE9, 0x20AC]) \<and>
    length (Buffer_from_hex (iv r)) = 16 \<and>
    length (Buffer_from_hex (authTag r)) = 16 \<and>
    valid_hex (encryptedContent r) \<and> valid_hex (iv r) \<and> valid_hex (authTag r)"
    by blast
qed

text \<open>
  Claim C8. \<open>decrypt\<close> is deterministic: its outcome depends on the key and the three
  strings only, not on the console, the random source or the environment, so a second
  run on the same inputs, also one right after the first, has the same outcome: the same
  plaintext, or the one error that \<open>decrypt\<close> throws.
\<close>

theorem decrypt_deterministic:
  "fst (decrypt P key c n t w) = fst (decrypt P key c n t w') \<and>
   fst (decrypt P key c n t (snd (decrypt P key c n t w))) = fst (decrypt P key c n t w) \<and>
   ((\<exists>d. fst (decrypt P key c n t w) = Inr d) \<or> fst (decrypt P key c n t w) = Inl DecryptionError)"
  by (cases "decrypt_try P key c n t") (simp_all add: decrypt_fst)

text \<open>
  Claim C9, as the code has it. With a key of 32 bytes, \<open>encrypt\<close> returns an
  \<open>EncryptionResult\<close> for every string whose UTF-8 encoding has at most 268,435,444
  bytes, hence for every string of up to 89,478,481 code units. For a longer encoding the
  ciphertext in hex would exceed the longest string of the engine:
  \<open>update(plaintext, 'utf8', 'hex')\<close> throws inside the \<open>try\<close>, and the \<open>catch\<close> clause
  is reached and throws \<open>Failed to encrypt data\<close>.
\<close>

theorem encrypt_throws_when_too_long:
  assumes "length key = 32"
  shows "(2 * length (utf8_encode s) \<le> MAX_STRING_LENGTH \<longrightarrow>
            (\<exists>r. fst (encrypt P key s w) = Inr r)) \<and>
    (length s \<le> 89478481 \<longrightarrow> (\<exists>r. fst (encrypt P key s w) = Inr r)) \<and>
    (MAX_STRING_LENGTH < 2 * length (utf8_encode s) \<longrightarrow>
            fst (encrypt P key s w) = Inl EncryptionError) \<and>
    MAX_STRING_LENGTH = 2 * 268435444"
proof (intro conjI impI)
  assume "2 * length (utf8_encode s) \<le> MAX_STRING_LENGTH"
  from encrypt_eq [OF assms this, of P w]
  show "\<exists>r. fst (encrypt P key s w) = Inr r" by blast
next
  assume "length s \<le> 89478481"
  then have "2 * length (utf8_encode s) \<le> MAX_STRING_LENGTH"
    using length_utf8_encode [of s] by (simp add: MAX_STRING_LENGTH_def)
  from encrypt_eq [OF assms this, of P w]
  show "\<exists>r. fst (encrypt P key s w) = Inr r" by blast
next
  assume "MAX_STRING_LENGTH < 2 * length (utf8_encode s)"
  then show "fst (encrypt P key s w) = Inl EncryptionError"
    by (rule encrypt_too_long)
next
  show "MAX_STRING_LENGTH = 2 * 268435444"
    by (simp add: MAX_STRING_LENGTH_def)
qed

theorem encrypt_throws_when_too_long_witness:
  "\<forall>P w. length (replicate 32 (0 :: byte)) = 32 \<and>
     length (js ''hunter2'') \<le> 89478481 \<and>
     (\<exists>r. fst (encrypt P (replicate 32 0) (js ''hunter2'') w) = Inr r) \<and>
     2 * length (utf8_encode (replicate 268435444 0x61)) \<le> MAX_STRING_LENGTH \<and>
     (\<exists>r. fst (encrypt P (replicate 32 0) (replicate 268435444 0x61) w) = Inr r) \<and>
     MAX_STRING_LENGTH < 2 * length (utf8_encode (replicate 268435445 0x61)) \<and>
     fst (encrypt P (replicate 32 0) (replicate 268435445 0x61) w) = Inl EncryptionError"
proof (intro allI)
  fix P :: gcm and w :: world
  have k: "length (replicate 32 (0 :: byte)) = 32" by simp
  have h: "length (js ''hunter2'') \<le> 89478481" by (simp add: js_def)
  have a: "unat (0x61 :: 16 word) < 128" by simp
  have f: "2 * length (utf8_encode (replicate 268435444 0x61)) \<le> MAX_STRING_LENGTH"
    by (simp add: length_utf8_encode_ascii [OF a] MAX_STRING_LENGTH_def)
  have g: "MAX_STRING_LENGTH < 2 * length (utf8_encode (replicate 268435445 0x61))"
    by (simp add: length_utf8_encode_ascii [OF a] MAX_STRING_LENGTH_def)
  from encrypt_throws_when_too_long [OF k, of "js ''hunter2''" P w] h
  have 1: "\<exists>r. fst (encrypt P (replicate 32 0) (js ''hunter2'') w) = Inr r" by blast
  from encrypt_throws_when_too_long [OF k, of "replicate 268435444 0x61" P w] f
  have 2: "\<exists>r. fst (encrypt P (replicate 32 0) (replicate 268435444 0x61) w) = Inr r" by blast
  from encrypt_throws_when_too_long [OF k, of "replicate 268435445 0x61" P w] g
  have 3: "fst (encrypt P (replicate 32 0) (replicate 268435445 0x61) w) = Inl EncryptionError"
    by blast
  from k h f g 1 2 3
  show "length (replicate 32 (0 :: byte)) = 32 \<and>
     length (js ''hunter2'') \<le> 89478481 \<and>
     (\<exists>r. fst (encrypt P (replicate 32 0) (js ''hunter2'') w) = Inr r) \<and>
     2 * length (utf8_encode (replicate 268435444 0x61)) \<le> MAX_STRING_LENGTH \<and>
     (\<exists>r. fst (encrypt P (replicate 32 0) (replicate 268435444 0x61) w) = Inr r) \<and>
     MAX_STRING_LENGTH < 2 * length (utf8_encode (replicate 268435445 0x61)) \<and>
     fst (encrypt P (replicate 32 0) (replicate 268435445 0x61) w) = Inl EncryptionError"
    by (intro conjI)
qed

text \<open>
  A plaintext of 268,435,445 letters \<open>a\<close> is a string the engine can hold; its ciphertext
  in hex would have 536,870,890 characters, two more than the longest string there is.
  Under the all-zero key \<open>encrypt\<close> throws \<open>Failed to encrypt data\<close>.
\<close>

theorem encrypt_throws_when_too_long_counterexample:
  "\<forall>P w. length (replicate 32 (0 :: byte)) = 32 \<and>
     length (replicate 268435445 (0x61 :: 16 word)) \<le> MAX_STRING_LENGTH \<and>
     fst (encrypt P (replicate 32 0) (replicate 268435445 0x61) w) = Inl EncryptionError"
proof (intro allI conjI)
  show "length (replicate 32 (0 :: byte)) = 32" by simp
  show "length (replicate 268435445 (0x61 :: 16 word)) \<le> MAX_STRING_LENGTH"
    by (simp add: MAX_STRING_LENGTH_def)
  fix P :: gcm and w :: world
  have a: "unat (0x61 :: 16 word) < 128" by simp
  have "MAX_STRING_LENGTH < 2 * length (utf8_encode (replicate 268435445 0x61))"
    by (simp add: length_utf8_encode_ascii [OF a] MAX_STRING_LENGTH_def)
  then show "fst (encrypt P (replicate 32 0) (replicate 268435445 0x61) w) = Inl EncryptionError"
    by (rule encrypt_too_long)
qed

section \<open>Loading the key, malformed envelopes, records that do not decrypt\<close>

lemma decoded_at_least:
  "n \<le> length (Buffer_from_hex s) \<longleftrightarrow>
     2 * n \<le> length s \<and> list_all (\<lambda>c. unhex c \<noteq> None) (take (2 * n) s)"
proof (induction s arbitrary: n rule: Buffer_from_hex.induct)
  case (1 a b rest)
  show ?case
  proof (cases n)
    case 0
    then show ?thesis by simp
  next
    case (Suc m)
    with "1.IH" [of _ _ m] show ?thesis
      by (auto split: option.splits)
  qed
next
  case (2 a)
  show ?case by (cases n) simp_all
next
  case 3
  show ?case by simp
qed

lemma length_Buffer_from_hex_valid:
  assumes "valid_hex s"
  shows "length (Buffer_from_hex s) = length s div 2"
proof -
  from assms obtain m where m: "length s = 2 * m"
    by (auto simp: valid_hex_def elim: evenE)
  have all: "list_all (\<lambda>c. unhex c \<noteq> None) s"
    using assms by (auto simp: valid_hex_def list_all_iff dest: unhex_hex_digit)
  have "m \<le> length (Buffer_from_hex s)"
    using m all by (simp add: decoded_at_least)
  moreover have "\<not> Suc m \<le> length (Buffer_from_hex s)"
    using m by (simp add: decoded_at_least)
  ultimately show ?thesis using m by simp
qed

lemma unhex_0: "unhex 0x30 = Some 0"
  by (simp add: unhex_def)

lemma unhex_0130: "unhex 0x130 = Some 0"
  by (simp add: unhex_def)

lemma unhex_z: "unhex 0x7A = None"
  by (simp add: unhex_def)

lemma Buffer_from_hex_replicate:
  assumes "unhex c = Some 0"
  shows "Buffer_from_hex (replicate (2 * n) c @ rest) = replicate n 0 @ Buffer_from_hex rest"
  by (induction n) (simp_all add: assms)

lemma valid_hex_zeros: "valid_hex (replicate (2 * n) 0x30)"
  by (simp add: valid_hex_def list_all_iff is_hex_digit_def)

text \<open>
  Claim C3, as the code has it. Loading the key fails, with one of the two configuration
  errors, exactly when \<open>ENCRYPTION_KEY\<close> is absent or empty or when the bytes that
  \<open>Buffer.from(key, 'hex')\<close> reads from it are not exactly 32. The key loaded is those
  bytes. They are 32 exactly when the first 64 characters each have the low byte of a hex
  digit and the string does not go on with two more such characters. Every string of 64
  hex digits is accepted, the all-zero key too. Whether the whole string is valid hex is
  not checked.
\<close>

theorem key_loading:
  "((\<exists>e. getEncryptionKey k = Inl e) \<longleftrightarrow>
      (case k of None \<Rightarrow> True | Some s \<Rightarrow> s = [] \<or> length (Buffer_from_hex s) \<noteq> 32)) \<and>
   (\<forall>e. getEncryptionKey k = Inl e \<longrightarrow> ConfigurationError e) \<and>
   (\<forall>key. getEncryptionKey k = Inr key \<longrightarrow>
      (\<exists>s. k = Some s \<and> key = Buffer_from_hex s) \<and> length key = 32) \<and>
   (\<forall>s. length (Buffer_from_hex s) = 32 \<longleftrightarrow>
      (64 \<le> length s \<and> list_all (\<lambda>c. unhex c \<noteq> None) (take 64 s)) \<and>
      \<not> (66 \<le> length s \<and> list_all (\<lambda>c. unhex c \<noteq> None) (take 66 s))) \<and>
   (\<forall>s. valid_hex s \<and> length s = 64 \<longrightarrow> getEncryptionKey (Some s) = Inr (Buffer_from_hex s))"
proof (intro conjI allI impI)
  show "(\<exists>e. getEncryptionKey k = Inl e) \<longleftrightarrow>
      (case k of None \<Rightarrow> True | Some s \<Rightarrow> s = [] \<or> length (Buffer_from_hex s) \<noteq> 32)"
    by (cases k) (auto simp: getEncryptionKey_def keyLength_def Let_def)
next
  fix e assume "getEncryptionKey k = Inl e"
  then show "ConfigurationError e"
    by (auto simp: getEncryptionKey_def ConfigurationError_def Let_def split: if_splits)
next
  fix key assume "getEncryptionKey k = Inr key"
  then show "\<exists>s. k = Some s \<and> key = Buffer_from_hex s" "length key = 32"
    by (cases k; auto simp: getEncryptionKey_def keyLength_def Let_def split: if_splits)+
next
  fix s
  have "length (Buffer_from_hex s) = 32 \<longleftrightarrow>
      32 \<le> length (Buffer_from_hex s) \<and> \<not> 33 \<le> length (Buffer_from_hex s)"
    by linarith
  then show "length (Buffer_from_hex s) = 32 \<longleftrightarrow>
      (64 \<le> length s \<and> list_all (\<lambda>c. unhex c \<noteq> None) (take 64 s)) \<and>
      \<not> (66 \<le> length s \<and> list_all (\<lambda>c. unhex c \<noteq> None) (take 66 s))"
    by (simp add: decoded_at_least [of 32 s] decoded_at_least [of 33 s])
next
  fix s assume "valid_hex s \<and> length s = 64"
  then have "length (Buffer_from_hex s) = 32" "s \<noteq> []"
    using length_Buffer_from_hex_valid [of s] by auto
  then show "getEncryptionKey (Some s) = Inr (Buffer_from_hex s)"
    by (simp add: getEncryptionKey_def keyLength_def)
qed

theorem key_loading_witness:
  "valid_hex zero_key_hex \<and> length zero_key_hex = 64 \<and>
   getEncryptionKey (Some zero_key_hex) = Inr (replicate 32 0) \<and>
   getEncryptionKey None = Inl key_not_set \<and> ConfigurationError key_not_set \<and>
   length (Buffer_from_hex (js ''not-a-hex-key'')) \<noteq> 32 \<and>
   getEncryptionKey (Some (js ''not-a-hex-key'')) = Inl key_wrong_length"
proof -
  have z: "zero_key_hex = replicate (2 * 32) 0x30"
    by (simp add: zero_key_hex_def)
  have v: "valid_hex zero_key_hex \<and> length zero_key_hex = 64"
    unfolding z using valid_hex_zeros [of 32] by simp
  have d: "Buffer_from_hex zero_key_hex = replicate 32 0"
    unfolding z using Buffer_from_hex_replicate [OF unhex_0, of 32 "[]"] by simp
  have n: "getEncryptionKey None = Inl key_not_set"
    by (simp add: getEncryptionKey_def)
  have l: "length (Buffer_from_hex (js ''not-a-hex-key'')) \<noteq> 32"
    by (simp add: js_def unhex_def)
  from key_loading [of "Some zero_key_hex"] v d
  have 1: "getEncryptionKey (Some zero_key_hex) = Inr (replicate 32 0)" by simp
  from key_loading [of None] n have 2: "ConfigurationError key_not_set" by simp
  from key_loading [of "Some (js ''not-a-hex-key'')"] l
  obtain e where e: "getEncryptionKey (Some (js ''not-a-hex-key'')) = Inl e" by auto
  with l have 3: "getEncryptionKey (Some (js ''not-a-hex-key'')) = Inl key_wrong_length"
    by (simp add: getEncryptionKey_def keyLength_def js_def split: if_splits)
  from v n l 1 2 3 show ?thesis by simp
qed

text \<open>
  The 64 zero digits followed by \<open>zz\<close> are not valid hex, and the all-zero key is loaded.
  So it is from 64 times the character U+0130, none of which is a hex digit.
\<close>

theorem key_loading_counterexample:
  "\<not> valid_hex (zero_key_hex @ js ''zz'') \<and>
   getEncryptionKey (Some (zero_key_hex @ js ''zz'')) = Inr (replicate 32 0) \<and>
   \<not> valid_hex (replicate 64 0x130) \<and>
   getEncryptionKey (Some (replicate 64 0x130)) = Inr (replicate 32 0)"
proof -
  have z: "zero_key_hex = replicate (2 * 32) 0x30"
    by (simp add: zero_key_hex_def)
  have zz: "js ''zz'' = [0x7A, 0x7A]"
    by (simp add: js_def)
  have 1: "\<not> valid_hex (zero_key_hex @ js ''zz'')"
    by (simp add: valid_hex_def zz is_hex_digit_def)
  have "Buffer_from_hex (zero_key_hex @ js ''zz'') = replicate 32 0"
    unfolding z zz using Buffer_from_hex_replicate [OF unhex_0, of 32 "[0x7A, 0x7A]"]
    by (simp add: unhex_z)
  then have 2: "getEncryptionKey (Some (zero_key_hex @ js ''zz'')) = Inr (replicate 32 0)"
    by (simp add: getEncryptionKey_def keyLength_def z)
  have 3: "\<not> valid_hex (replicate 64 0x130)"
    by (simp add: valid_hex_def list_all_iff is_hex_digit_def)
  have "Buffer_from_hex (replicate (2 * 32) 0x130) = replicate 32 0"
    using Buffer_from_hex_replicate [OF unhex_0130, of 32 "[]"] by simp
  then have 4: "getEncryptionKey (Some (replicate 64 0x130)) = Inr (replicate 32 0)"
    by (simp add: getEncryptionKey_def keyLength_def)
  from 1 2 3 4 show ?thesis by simp
qed

lemma decrypt_try_malformed:
  assumes "Buffer_from_hex ivHex = [] \<or> 128 < length (Buffer_from_hex ivHex) \<or>
     length (Buffer_from_hex tagHex) \<notin> {4, 8, 12, 13, 14, 15, 16} \<or> odd (length ctHex)"
  shows "\<exists>e. decrypt_try P key ctHex ivHex tagHex = Inl e"
  using assms
  by (auto simp: decrypt_try_def createDecipheriv_def createCipheriv_def setAuthTag_def
      validateEncoding_hex_def Let_def)

lemma decrypt_succeeds_iff:
  assumes "length key = 32"
  shows "(\<exists>d. fst (decrypt P key ctHex ivHex tagHex w) = Inr d) \<longleftrightarrow>
         Buffer_from_hex ivHex \<noteq> [] \<and> length (Buffer_from_hex ivHex) \<le> 128 \<and>
         length (Buffer_from_hex tagHex) \<in> {4, 8, 12, 13, 14, 15, 16} \<and>
         even (length ctHex) \<and>
         take (length (Buffer_from_hex tagHex))
           (block_bytes (tag P key (Buffer_from_hex ivHex) (Buffer_from_hex ctHex)))
           = Buffer_from_hex tagHex"
proof (cases "Buffer_from_hex ivHex = [] \<or> 128 < length (Buffer_from_hex ivHex) \<or>
     length (Buffer_from_hex tagHex) \<notin> {4, 8, 12, 13, 14, 15, 16} \<or> odd (length ctHex)")
  case True
  from decrypt_try_malformed [OF this, of P key] True show ?thesis
    by (auto simp: decrypt_fst)
next
  case False
  then have ok: "Buffer_from_hex ivHex \<noteq> []" "length (Buffer_from_hex ivHex) \<le> 128"
    "length (Buffer_from_hex tagHex) \<in> {4, 8, 12, 13, 14, 15, 16}" "even (length ctHex)"
    by (blast, linarith, blast, blast)
  show ?thesis
    using ok by (simp add: decrypt_fst decrypt_try_eq [OF assms ok])
qed

text \<open>
  Claim C4, as the code has it. \<open>decrypt\<close> fails when the nonce string decodes to no
  byte at all or to more than 128 bytes, when the tag string decodes to a number of bytes
  other than 4, 8 or 12 to 16, and when the ciphertext string has odd length; whenever
  \<open>decrypt\<close> fails, the error is the one \<open>DecryptionError\<close>; the call of the
  specification's scenario fails. The strings are not checked to be hex throughout, and
  the nonce and the tag are not checked to be 16 bytes: with a key of 32 bytes, \<open>decrypt\<close>
  returns a plaintext exactly when none of these conditions holds and the tag given
  equals the leading bytes of the tag computed.
\<close>

theorem malformed_envelope:
  "((Buffer_from_hex ivHex = [] \<or> 128 < length (Buffer_from_hex ivHex) \<or>
     length (Buffer_from_hex tagHex) \<notin> {4, 8, 12, 13, 14, 15, 16} \<or> odd (length ctHex))
      \<longrightarrow> fst (decrypt P key ctHex ivHex tagHex w) = Inl DecryptionError) \<and>
   (\<forall>e. fst (decrypt P key ctHex ivHex tagHex w) = Inl e \<longrightarrow> e = DecryptionError) \<and>
   fst (decrypt P key (js ''not-hex'') (js ''alsonothex'') (js ''nope'') w) = Inl DecryptionError \<and>
   (length key = 32 \<longrightarrow>
      ((\<exists>d. fst (decrypt P key ctHex ivHex tagHex w) = Inr d) \<longleftrightarrow>
         Buffer_from_hex ivHex \<noteq> [] \<and> length (Buffer_from_hex ivHex) \<le> 128 \<and>
         length (Buffer_from_hex tagHex) \<in> {4, 8, 12, 13, 14, 15, 16} \<and>
         even (length ctHex) \<and>
         take (length (Buffer_from_hex tagHex))
           (block_bytes (tag P key (Buffer_from_hex ivHex) (Buffer_from_hex ctHex)))
           = Buffer_from_hex tagHex))"
proof (intro conjI allI impI)
  assume "Buffer_from_hex ivHex = [] \<or> 128 < length (Buffer_from_hex ivHex) \<or>
     length (Buffer_from_hex tagHex) \<notin> {4, 8, 12, 13, 14, 15, 16} \<or> odd (length ctHex)"
  from decrypt_try_malformed [OF this, of P key]
  show "fst (decrypt P key ctHex ivHex tagHex w) = Inl DecryptionError"
    by (auto simp: decrypt_fst)
next
  fix e assume "fst (decrypt P key ctHex ivHex tagHex w) = Inl e"
  then show "e = DecryptionError"
    by (simp add: decrypt_fst split: sum.splits)
next
  have "Buffer_from_hex (js ''alsonothex'') = []"
    by (simp add: js_def unhex_def)
  then have "\<exists>e. decrypt_try P key (js ''not-hex'') (js ''alsonothex'') (js ''nope'') = Inl e"
    by (intro decrypt_try_malformed) simp
  then show "fst (decrypt P key (js ''not-hex'') (js ''alsonothex'') (js ''nope'') w) = Inl DecryptionError"
    by (auto simp: decrypt_fst)
next
  assume "length key = 32"
  then show "(\<exists>d. fst (decrypt P key ctHex ivHex tagHex w) = Inr d) \<longleftrightarrow>
         Buffer_from_hex ivHex \<noteq> [] \<and> length (Buffer_from_hex ivHex) \<le> 128 \<and>
         length (Buffer_from_hex tagHex) \<in> {4, 8, 12, 13, 14, 15, 16} \<and>
         even (length ctHex) \<and>
         take (length (Buffer_from_hex tagHex))
           (block_bytes (tag P key (Buffer_from_hex ivHex) (Buffer_from_hex ctHex)))
           = Buffer_from_hex tagHex"
    by (rule decrypt_succeeds_iff)
qed

theorem malformed_envelope_witness:
  "\<forall>P key w. Buffer_from_hex (js ''xy00'') = [] \<and>
     fst (decrypt P key [] (js ''xy00'') [] w) = Inl DecryptionError \<and>
     length (Buffer_from_hex (js ''abcdef'')) = 3 \<and>
     fst (decrypt P key [] (js ''00'') (js ''abcdef'') w) = Inl DecryptionError \<and>
     128 < length (Buffer_from_hex (toString_hex (replicate 129 0))) \<and>
     fst (decrypt P key [] (toString_hex (replicate 129 0)) [] w) = Inl DecryptionError \<and>
     length (replicate 32 (0 :: byte)) = 32 \<and>
     (\<exists>d. fst (decrypt P (replicate 32 0) [] (toString_hex (replicate 16 0))
            (toString_hex (block_bytes (tag P (replicate 32 0) (replicate 16 0) []))) w) = Inr d)"
proof (intro allI)
  fix P :: gcm and key :: buffer and w :: world
  have a: "Buffer_from_hex (js ''xy00'') = []"
    by (simp add: js_def unhex_def)
  have b: "length (Buffer_from_hex (js ''abcdef'')) = 3"
    by (simp add: js_def unhex_def)
  have c: "128 < length (Buffer_from_hex (toString_hex (replicate 129 0)))"
    by (simp add: Buffer_from_hex_toString_hex)
  have k: "length (replicate 32 (0 :: byte)) = 32" by simp
  from malformed_envelope [of "js ''xy00''" "[]" "[]" P key w] a
  have 1: "fst (decrypt P key [] (js ''xy00'') [] w) = Inl DecryptionError" by simp
  from malformed_envelope [of "js ''00''" "js ''abcdef''" "[]" P key w] b
  have 2: "fst (decrypt P key [] (js ''00'') (js ''abcdef'') w) = Inl DecryptionError" by simp
  from malformed_envelope [of "toString_hex (replicate 129 0)" "[]" "[]" P key w] c
  have 3: "fst (decrypt P key [] (toString_hex (replicate 129 0)) [] w) = Inl DecryptionError"
    by blast
  from malformed_envelope [of "toString_hex (replicate 16 0)"
      "toString_hex (block_bytes (tag P (replicate 32 0) (replicate 16 0) []))" "[]" P "replicate 32 0" w] k
  have 4: "\<exists>d. fst (decrypt P (replicate 32 0) [] (toString_hex (replicate 16 0))
            (toString_hex (block_bytes (tag P (replicate 32 0) (replicate 16 0) []))) w) = Inr d"
    by (simp add: Buffer_from_hex_toString_hex length_block_bytes)
  from a b c k 1 2 3 4 show "Buffer_from_hex (js ''xy00'') = [] \<and>
     fst (decrypt P key [] (js ''xy00'') [] w) = Inl DecryptionError \<and>
     length (Buffer_from_hex (js ''abcdef'')) = 3 \<and>
     fst (decrypt P key [] (js ''00'') (js ''abcdef'') w) = Inl DecryptionError \<and>
     128 < length (Buffer_from_hex (toString_hex (replicate 129 0))) \<and>
     fst (decrypt P key [] (toString_hex (replicate 129 0)) [] w) = Inl DecryptionError \<and>
     length (replicate 32 (0 :: byte)) = 32 \<and>
     (\<exists>d. fst (decrypt P (replicate 32 0) [] (toString_hex (replicate 16 0))
            (toString_hex (block_bytes (tag P (replicate 32 0) (replicate 16 0) []))) w) = Inr d)"
    by (intro conjI)
qed

lemma utf8_decode_Nil: "utf8_decode [] = []"
  by (simp add: utf8_decode_def decoder0_def)

lemma gctr_Nil: "gctr P key nonce off [] = []"
  by (simp add: gctr_def)

text \<open>
  Under the all-zero key and whatever the cipher computes, \<open>decrypt\<close> returns the empty
  plaintext for a ciphertext string \<open>zz\<close>, for a nonce string with a character after its
  32 hex digits, for a nonce string of 32 times the character U+0130, for a nonce of 12
  bytes and for a tag cut to its first 4 bytes.
\<close>

theorem malformed_envelope_counterexample:
  "\<forall>P w.
     \<not> valid_hex (js ''zz'') \<and>
     fst (decrypt P (replicate 32 0) (js ''zz'') (toString_hex (replicate 16 0))
            (toString_hex (block_bytes (tag P (replicate 32 0) (replicate 16 0) []))) w) = Inr [] \<and>
     \<not> valid_hex (toString_hex (replicate 16 0) @ js ''!'') \<and>
     fst (decrypt P (replicate 32 0) [] (toString_hex (replicate 16 0) @ js ''!'')
            (toString_hex (block_bytes (tag P (replicate 32 0) (replicate 16 0) []))) w) = Inr [] \<and>
     \<not> valid_hex (replicate 32 0x130) \<and>
     fst (decrypt P (replicate 32 0) [] (replicate 32 0x130)
            (toString_hex (block_bytes (tag P (replicate 32 0) (replicate 16 0) []))) w) = Inr [] \<and>
     length (Buffer_from_hex (toString_hex (replicate 12 0))) = 12 \<and>
     fst (decrypt P (replicate 32 0) [] (toString_hex (replicate 12 0))
            (toString_hex (block_bytes (tag P (replicate 32 0) (replicate 12 0) []))) w) = Inr [] \<and>
     length (Buffer_from_hex (toString_hex (take 4 (block_bytes (tag P (replicate 32 0) (replicate 16 0) []))))) = 4 \<and>
     fst (decrypt P (replicate 32 0) [] (toString_hex (replicate 16 0))
            (toString_hex (take 4 (block_bytes (tag P (replicate 32 0) (replicate 16 0) [])))) w) = Inr []"
proof -
  have "
     \<not> valid_hex (js ''zz'') \<and>
     fst (decrypt P (replicate 32 0) (js ''zz'') (toString_hex (replicate 16 0))
            (toString_hex (block_bytes (tag P (replicate 32 0) (replicate 16 0) []))) w) = Inr [] \<and>
     \<not> valid_hex (toString_hex (replicate 16 0) @ js ''!'') \<and>
     fst (decrypt P (replicate 32 0) [] (toString_hex (replicate 16 0) @ js ''!'')
            (toString_hex (block_bytes (tag P (replicate 32 0) (replicate 16 0) []))) w) = Inr [] \<and>
     \<not> valid_hex (replicate 32 0x130) \<and>
     fst (decrypt P (replicate 32 0) [] (replicate 32 0x130)
            (toString_hex (block_bytes (tag P (replicate 32 0) (replicate 16 0) []))) w) = Inr [] \<and>
     length (Buffer_from_hex (toString_hex (replicate 12 0))) = 12 \<and>
     fst (decrypt P (replicate 32 0) [] (toString_hex (replicate 12 0))
            (toString_hex (block_bytes (tag P (replicate 32 0) (replicate 12 0) []))) w) = Inr [] \<and>
     length (Buffer_from_hex (toString_hex (take 4 (block_bytes (tag P (replicate 32 0) (replicate 16 0) []))))) = 4 \<and>
     fst (decrypt P (replicate 32 0) [] (toString_hex (replicate 16 0))
            (toString_hex (take 4 (block_bytes (tag P (replicate 32 0) (replicate 16 0) [])))) w) = Inr []"
    for P :: gcm and w :: world
  proof -
    define key :: buffer where "key = replicate 32 0"
    define n16 :: buffer where "n16 = replicate 16 0"
    define n12 :: buffer where "n12 = replicate 12 0"
    define t16 where "t16 = block_bytes (tag P key n16 [])"
    define t12 where "t12 = block_bytes (tag P key n12 [])"
    have key: "length key = 32" by (simp add: key_def)
    have zz: "js ''zz'' = [0x7A, 0x7A]" by (simp add: js_def)
    have zzd: "Buffer_from_hex (js ''zz'') = []" by (simp add: zz unhex_def)
    have bang: "Buffer_from_hex (toString_hex n16 @ js ''!'') = n16"
      by (simp add: Buffer_from_hex_append js_def)
    have dotted: "Buffer_from_hex (replicate 32 0x130) = n16"
      unfolding n16_def using Buffer_from_hex_replicate [OF unhex_0130, of 16 "[]"] by simp
    have lt: "length t16 = 16" "length t12 = 16"
      by (simp_all add: t16_def t12_def length_block_bytes)
    have ev: "even (length (js ''zz''))" by (simp add: js_def)
    have nn: "n16 \<noteq> []" "n12 \<noteq> []" "length n16 \<le> 128" "length n12 \<le> 128"
      by (simp_all add: n16_def n12_def)
    note eqs = Buffer_from_hex_toString_hex gctr_Nil utf8_decode_Nil
      t16_def [symmetric] t12_def [symmetric]
    have c1: "\<not> valid_hex (js ''zz'')"
      by (simp add: valid_hex_def zz is_hex_digit_def)
    have c3: "\<not> valid_hex (toString_hex n16 @ js ''!'')"
      by (simp add: valid_hex_def length_toString_hex js_def)
    have c3': "\<not> valid_hex (replicate 32 0x130)"
      by (simp add: valid_hex_def list_all_iff is_hex_digit_def)
    have c5: "length (Buffer_from_hex (toString_hex n12)) = 12"
      by (simp add: Buffer_from_hex_toString_hex n12_def)
    have c7: "length (Buffer_from_hex (toString_hex (take 4 t16))) = 4"
      using lt by (simp add: Buffer_from_hex_toString_hex)
    have "decrypt_try P key (js ''zz'') (toString_hex n16) (toString_hex t16) = Inr []"
      using key lt ev nn by (subst decrypt_try_eq) (simp_all add: eqs zzd)
    then have c2: "fst (decrypt P key (js ''zz'') (toString_hex n16) (toString_hex t16) w) = Inr []"
      by (simp add: decrypt_fst)
    have "decrypt_try P key [] (toString_hex n16 @ js ''!'') (toString_hex t16) = Inr []"
      using key lt nn by (subst decrypt_try_eq) (simp_all add: eqs bang)
    then have c4: "fst (decrypt P key [] (toString_hex n16 @ js ''!'') (toString_hex t16) w) = Inr []"
      by (simp add: decrypt_fst)
    have "decrypt_try P key [] (replicate 32 0x130) (toString_hex t16) = Inr []"
      using key lt nn by (subst decrypt_try_eq) (simp_all add: eqs dotted)
    then have c4': "fst (decrypt P key [] (replicate 32 0x130) (toString_hex t16) w) = Inr []"
      by (simp add: decrypt_fst)
    have "decrypt_try P key [] (toString_hex n12) (toString_hex t12) = Inr []"
      using key lt nn by (subst decrypt_try_eq) (simp_all add: eqs)
    then have c6: "fst (decrypt P key [] (toString_hex n12) (toString_hex t12) w) = Inr []"
      by (simp add: decrypt_fst)
    have "decrypt_try P key [] (toString_hex n16) (toString_hex (take 4 t16)) = Inr []"
      using key lt nn by (subst decrypt_try_eq) (simp_all add: eqs)
    then have c8: "fst (decrypt P key [] (toString_hex n16) (toString_hex (take 4 t16)) w) = Inr []"
      by (simp add: decrypt_fst)
    from c1 c2 c3 c4 c3' c4' c5 c6 c7 c8 show ?thesis
      unfolding t16_def t12_def n16_def n12_def key_def by (intro conjI)
  qed
  then show ?thesis by blast
qed

lemma fst_decryptOne:
  "fst (decryptOne P key s w) =
     \<lparr>id = rec_id s, name = or_else (rec_name s) (js ''Untitled Secret''),
      content = (case fst (decrypt P key (encrypted_content s) (rec_iv s) (auth_tag s) w') of
                   Inr d \<Rightarrow> d | Inl e \<Rightarrow> js ''[Decryption Error]''),
      createdAt = created_at s, updatedAt = updated_at s\<rparr>"
  by (cases "decrypt_try P key (encrypted_content s) (rec_iv s) (auth_tag s)")
    (simp_all add: decryptOne_def decrypt_def decrypt_fst)

lemma fst_mapDecrypt:
  "fst (mapDecrypt P key secrets w) = map (\<lambda>s. fst (decryptOne P key s w')) secrets"
proof (induction secrets arbitrary: w)
  case Nil
  show ?case by simp
next
  case (Cons s secrets)
  have "fst (decryptOne P key s w) = fst (decryptOne P key s w')"
    by (simp add: fst_decryptOne [of P key s w w'] fst_decryptOne [of P key s w' w'])
  with Cons show ?case
    by (simp add: split_beta)
qed

lemma getAllSecrets_ok:
  "fst (getAllSecrets P key uid (Resolved (Some secrets) None) w) =
     \<lparr>status = 200, json = Secrets (map (\<lambda>s. fst (decryptOne P key s w')) secrets)\<rparr>"
  by (simp add: getAllSecrets_def split_beta Let_def fst_mapDecrypt [of P key secrets _ w'])

text \<open>
  Claim C5, as the code has it. \<open>getAllSecrets\<close> answers 200 with one entry for every
  record, in order; each entry is made from its own record alone: its content is the
  plaintext when that record decrypts and \<open>[Decryption Error]\<close> when it does not.
  \<open>getSecretById\<close> has no such recovery: when the record does not decrypt, the answer
  is 500 \<open>Internal server error\<close>.
\<close>

theorem failed_record_isolated:
  "fst (getAllSecrets P key uid (Resolved (Some secrets) None) w) =
     \<lparr>status = 200,
      json = Secrets (map (\<lambda>s.
        \<lparr>id = rec_id s, name = or_else (rec_name s) (js ''Untitled Secret''),
         content = (case fst (decrypt P key (encrypted_content s) (rec_iv s) (auth_tag s) w') of
                      Inr d \<Rightarrow> d | Inl e \<Rightarrow> js ''[Decryption Error]''),
         createdAt = created_at s, updatedAt = updated_at s\<rparr>) secrets)\<rparr> \<and>
   ((\<exists>e. fst (decrypt P key (encrypted_content secret) (rec_iv secret) (auth_tag secret) w') = Inl e)
      \<longrightarrow> fst (getSecretById P key uid sid (Resolved (Some secret) None) w) =
           \<lparr>status = 500, json = Failure (js ''Internal server error'')\<rparr>)"
proof (intro conjI impI)
  show "fst (getAllSecrets P key uid (Resolved (Some secrets) None) w) =
     \<lparr>status = 200,
      json = Secrets (map (\<lambda>s.
        \<lparr>id = rec_id s, name = or_else (rec_name s) (js ''Untitled Secret''),
         content = (case fst (decrypt P key (encrypted_content s) (rec_iv s) (auth_tag s) w') of
                      Inr d \<Rightarrow> d | Inl e \<Rightarrow> js ''[Decryption Error]''),
         createdAt = created_at s, updatedAt = updated_at s\<rparr>) secrets)\<rparr>"
    by (simp add: getAllSecrets_ok [of P key uid secrets w w'] fst_decryptOne [of P key _ w' w'])
next
  assume "\<exists>e. fst (decrypt P key (encrypted_content secret) (rec_iv secret) (auth_tag secret) w') = Inl e"
  then obtain e where "decrypt_try P key (encrypted_content secret) (rec_iv secret) (auth_tag secret) = Inl e"
    by (auto simp: decrypt_fst split: sum.splits)
  then show "fst (getSecretById P key uid sid (Resolved (Some secret) None) w) =
           \<lparr>status = 500, json = Failure (js ''Internal server error'')\<rparr>"
    by (simp add: getSecretById_def decrypt_def)
qed

lemma decrypt_sealed:
  assumes "length key = 32" "fst (encrypt P key s w) = Inr r"
  shows "fst (decrypt P key (encryptedContent r) (iv r) (authTag r) w') = Inr (utf8_decode (utf8_encode s))"
proof -
  note r = encrypt_result [OF assms(2)]
  have "fst (decrypt P key
      (toString_hex (gctr P key (fst (randomBytes ivLength w)) 0 (utf8_encode s)))
      (toString_hex (fst (randomBytes ivLength w)))
      (toString_hex (block_bytes (tag P key (fst (randomBytes ivLength w))
         (gctr P key (fst (randomBytes ivLength w)) 0 (utf8_encode s))))) w')
    = Inr (utf8_decode (utf8_encode s))"
    using decrypt_envelope [OF assms(1) nonce_ok(1) nonce_ok(2)] by (simp add: gctr_gctr)
  then show ?thesis by (subst (1 2 3) r) simp
qed

lemma decrypt_no_tag: "fst (decrypt P key c n [] w) = Inl DecryptionError"
  using decrypt_try_malformed [of n "[]" c P key] by (auto simp: decrypt_fst)

theorem failed_record_isolated_witness:
  "\<forall>P w. \<exists>r. fst (encrypt P (replicate 32 0) (js ''hunter2'') w) = Inr r \<and>
     fst (getAllSecrets P (replicate 32 0) (js ''u1'')
            (Resolved (Some [(stored (js ''a'') None (js ''t1'') r)\<lparr>auth_tag := []\<rparr>,
                             stored (js ''b'') (Some (js ''pin'')) (js ''t2'') r]) None) w) =
       \<lparr>status = 200,
        json = Secrets
          [\<lparr>id = js ''a'', name = js ''Untitled Secret'', content = js ''[Decryption Error]'',
            createdAt = js ''t1'', updatedAt = js ''t1''\<rparr>,
           \<lparr>id = js ''b'', name = js ''pin'', content = js ''hunter2'',
            createdAt = js ''t2'', updatedAt = js ''t2''\<rparr>]\<rparr> \<and>
     fst (getSecretById P (replicate 32 0) (js ''u1'') (js ''a'')
            (Resolved (Some ((stored (js ''a'') None (js ''t1'') r)\<lparr>auth_tag := []\<rparr>)) None) w) =
       \<lparr>status = 500, json = Failure (js ''Internal server error'')\<rparr>"
proof (intro allI)
  fix P :: gcm and w :: world
  define key :: buffer where "key = replicate 32 0"
  have key: "length key = 32" by (simp add: key_def)
  have "2 * length (utf8_encode (js ''hunter2'')) \<le> MAX_STRING_LENGTH"
    by (rule short_fits) (simp add: js_def)
  then obtain r where r: "fst (encrypt P key (js ''hunter2'') w) = Inr r"
    using encrypt_eq [OF key, of "js ''hunter2''" P w] by blast
  have wf: "well_formed (js ''hunter2'')"
    by (simp add: js_def is_high_def is_low_def)
  have good: "fst (decrypt P key (encryptedContent r) (iv r) (authTag r) w) = Inr (js ''hunter2'')"
    using decrypt_sealed [OF key r, of w] utf8_decode_encode [OF wf] by simp
  have bad: "fst (decrypt P key (encryptedContent r) (iv r) [] w) = Inl DecryptionError"
    by (rule decrypt_no_tag)
  define a where "a = (stored (js ''a'') None (js ''t1'') r)\<lparr>auth_tag := []\<rparr>"
  define b where "b = stored (js ''b'') (Some (js ''pin'')) (js ''t2'') r"
  have nonempty: "js ''pin'' \<noteq> []" by (simp add: js_def)
  note inst = failed_record_isolated [of P key "js ''u1''" "[a, b]" w w a "js ''a''"]
  have 1: "fst (getAllSecrets P key (js ''u1'') (Resolved (Some [a, b]) None) w) =
       \<lparr>status = 200,
        json = Secrets
          [\<lparr>id = js ''a'', name = js ''Untitled Secret'', content = js ''[Decryption Error]'',
            createdAt = js ''t1'', updatedAt = js ''t1''\<rparr>,
           \<lparr>id = js ''b'', name = js ''pin'', content = js ''hunter2'',
            createdAt = js ''t2'', updatedAt = js ''t2''\<rparr>]\<rparr>"
    using inst good bad nonempty by (simp add: a_def b_def stored_def)
  have 2: "fst (getSecretById P key (js ''u1'') (js ''a'') (Resolved (Some a) None) w) =
       \<lparr>status = 500, json = Failure (js ''Internal server error'')\<rparr>"
    using inst bad by (simp add: a_def stored_def)
  from r 1 2 show "\<exists>r. fst (encrypt P (replicate 32 0) (js ''hunter2'') w) = Inr r \<and>
     fst (getAllSecrets P (replicate 32 0) (js ''u1'')
            (Resolved (Some [(stored (js ''a'') None (js ''t1'') r)\<lparr>auth_tag := []\<rparr>,
                             stored (js ''b'') (Some (js ''pin'')) (js ''t2'') r]) None) w) =
       \<lparr>status = 200,
        json = Secrets
          [\<lparr>id = js ''a'', name = js ''Untitled Secret'', content = js ''[Decryption Error]'',
            createdAt = js ''t1'', updatedAt = js ''t1''\<rparr>,
           \<lparr>id = js ''b'', name = js ''pin'', content = js ''hunter2'',
            createdAt = js ''t2'', updatedAt = js ''t2''\<rparr>]\<rparr> \<and>
     fst (getSecretById P (replicate 32 0) (js ''u1'') (js ''a'')
            (Resolved (Some ((stored (js ''a'') None (js ''t1'') r)\<lparr>auth_tag := []\<rparr>)) None) w) =
       \<lparr>status = 500, json = Failure (js ''Internal server error'')\<rparr>"
    unfolding a_def b_def key_def by blast
qed

text \<open>
  A record without a tag, read by \<open>getSecretById\<close>: the operation ends with status 500
  and no record is reported.
\<close>

theorem failed_record_isolated_counterexample:
  "\<forall>P key w.
     fst (decrypt P key (js ''00'') (js ''00000000000000000000000000000000'') [] w) = Inl DecryptionError \<and>
     fst (getSecretById P key (js ''u1'') (js ''a'')
            (Resolved (Some \<lparr>rec_id = js ''a'', rec_name = Some (js ''pin''),
               encrypted_content = js ''00'', rec_iv = js ''00000000000000000000000000000000'',
               auth_tag = [], created_at = js ''t1'', updated_at = js ''t1''\<rparr>) None) w) =
       \<lparr>status = 500, json = Failure (js ''Internal server error'')\<rparr>"
proof (intro allI conjI)
  fix P key w
  show bad: "fst (decrypt P key (js ''00'') (js ''00000000000000000000000000000000'') [] w) = Inl DecryptionError"
    by (rule decrypt_no_tag)
  then have "\<exists>e. decrypt_try P key (js ''00'') (js ''00000000000000000000000000000000'') [] = Inl e"
    by (auto simp: decrypt_fst split: sum.splits)
  then show "fst (getSecretById P key (js ''u1'') (js ''a'')
            (Resolved (Some \<lparr>rec_id = js ''a'', rec_name = Some (js ''pin''),
               encrypted_content = js ''00'', rec_iv = js ''00000000000000000000000000000000'',
               auth_tag = [], created_at = js ''t1'', updated_at = js ''t1''\<rparr>) None) w) =
       \<lparr>status = 500, json = Failure (js ''Internal server error'')\<rparr>"
    by (auto simp: getSecretById_def decrypt_def)
qed

section \<open>Records that do not decrypt in a list\<close>

text \<open>
  Claim C10. In the list operation, every record that does not decrypt is returned with
  the content \<open>[Decryption Error]\<close>. So the response for a stored secret whose plaintext
  is the string \<open>[Decryption Error]\<close> is the response for the same row with its tag
  removed, which does not decrypt: the two cannot be told apart.
\<close>

theorem decryption_error_marker:
  assumes "length key = 32"
  shows "(\<exists>l. fst (getAllSecrets P key uid (Resolved (Some secrets) None) w) =
            \<lparr>status = 200, json = Secrets l\<rparr> \<and> length l = length secrets \<and>
          (\<forall>j < length secrets.
             (\<exists>e. fst (decrypt P key (encrypted_content (secrets ! j)) (rec_iv (secrets ! j))
                        (auth_tag (secrets ! j)) w1) = Inl e)
             \<longrightarrow> content (l ! j) = js ''[Decryption Error]'')) \<and>
    (\<exists>r. fst (encrypt P key (js ''[Decryption Error]'') w) = Inr r \<and>
       fst (decrypt P key (encryptedContent r) (iv r) (authTag r) w1) = Inr (js ''[Decryption Error]'') \<and>
       fst (decrypt P key (encryptedContent r) (iv r) [] w1) = Inl DecryptionError \<and>
       fst (getAllSecrets P key uid (Resolved (Some [stored i n t r]) None) w2) =
       fst (getAllSecrets P key uid (Resolved (Some [(stored i n t r)\<lparr>auth_tag := []\<rparr>]) None) w3))"
proof (intro conjI)
  let ?l = "map (\<lambda>s. fst (decryptOne P key s w1)) secrets"
  have "fst (getAllSecrets P key uid (Resolved (Some secrets) None) w) =
            \<lparr>status = 200, json = Secrets ?l\<rparr>"
    by (rule getAllSecrets_ok)
  moreover have "length ?l = length secrets" by simp
  moreover have "\<forall>j < length secrets.
             (\<exists>e. fst (decrypt P key (encrypted_content (secrets ! j)) (rec_iv (secrets ! j))
                        (auth_tag (secrets ! j)) w1) = Inl e)
             \<longrightarrow> content (?l ! j) = js ''[Decryption Error]''"
    by (auto simp: fst_decryptOne [of P key _ w1 w1])
  ultimately show "\<exists>l. fst (getAllSecrets P key uid (Resolved (Some secrets) None) w) =
            \<lparr>status = 200, json = Secrets l\<rparr> \<and> length l = length secrets \<and>
          (\<forall>j < length secrets.
             (\<exists>e. fst (decrypt P key (encrypted_content (secrets ! j)) (rec_iv (secrets ! j))
                        (auth_tag (secrets ! j)) w1) = Inl e)
             \<longrightarrow> content (l ! j) = js ''[Decryption Error]'')"
    by blast
next
  have "2 * length (utf8_encode (js ''[Decryption Error]'')) \<le> MAX_STRING_LENGTH"
    by (rule short_fits) (simp add: js_def)
  then obtain r where r: "fst (encrypt P key (js ''[Decryption Error]'') w) = Inr r"
    using encrypt_eq [OF assms, of "js ''[Decryption Error]''" P w] by blast
  have wf: "well_formed (js ''[Decryption Error]'')"
    by (simp add: js_def is_high_def is_low_def)
  have good: "fst (decrypt P key (encryptedContent r) (iv r) (authTag r) w1) = Inr (js ''[Decryption Error]'')"
    using decrypt_sealed [OF assms r, of w1] utf8_decode_encode [OF wf] by simp
  have bad: "fst (decrypt P key (encryptedContent r) (iv r) [] w1) = Inl DecryptionError"
    by (rule decrypt_no_tag)
  have "fst (getAllSecrets P key uid (Resolved (Some [stored i n t r]) None) w2) =
       fst (getAllSecrets P key uid (Resolved (Some [(stored i n t r)\<lparr>auth_tag := []\<rparr>]) None) w3)"
    using good bad
    by (simp add: getAllSecrets_ok [of P key uid _ _ w1] fst_decryptOne [of P key _ w1 w1] stored_def)
  with r good bad show "\<exists>r. fst (encrypt P key (js ''[Decryption Error]'') w) = Inr r \<and>
       fst (decrypt P key (encryptedContent r) (iv r) (authTag r) w1) = Inr (js ''[Decryption Error]'') \<and>
       fst (decrypt P key (encryptedContent r) (iv r) [] w1) = Inl DecryptionError \<and>
       fst (getAllSecrets P key uid (Resolved (Some [stored i n t r]) None) w2) =
       fst (getAllSecrets P key uid (Resolved (Some [(stored i n t r)\<lparr>auth_tag := []\<rparr>]) None) w3)"
    by blast
qed

theorem decryption_error_marker_witness:
  "\<forall>P w. length (replicate 32 (0 :: byte)) = 32 \<and>
    fst (decrypt P (replicate 32 0) (js ''00'') (js ''00'') [] w) = Inl DecryptionError \<and>
    (\<exists>l. fst (getAllSecrets P (replicate 32 0) (js ''u1'')
              (Resolved (Some [\<lparr>rec_id = js ''a'', rec_name = None, encrypted_content = js ''00'',
                 rec_iv = js ''00'', auth_tag = [], created_at = js ''t1'', updated_at = js ''t1''\<rparr>]) None) w) =
            \<lparr>status = 200, json = Secrets l\<rparr> \<and> length l = 1 \<and>
          content (l ! 0) = js ''[Decryption Error]'') \<and>
    (\<exists>r. fst (encrypt P (replicate 32 0) (js ''[Decryption Error]'') w) = Inr r \<and>
       fst (decrypt P (replicate 32 0) (encryptedContent r) (iv r) (authTag r) w) = Inr (js ''[Decryption Error]'') \<and>
       fst (decrypt P (replicate 32 0) (encryptedContent r) (iv r) [] w) = Inl DecryptionError \<and>
       fst (getAllSecrets P (replicate 32 0) (js ''u1'') (Resolved (Some [stored (js ''a'') None (js ''t1'') r]) None) w) =
       fst (getAllSecrets P (replicate 32 0) (js ''u1'')
              (Resolved (Some [(stored (js ''a'') None (js ''t1'') r)\<lparr>auth_tag := []\<rparr>]) None) w))"
proof (intro allI)
  fix P :: gcm and w :: world
  define bad where "bad = \<lparr>rec_id = js ''a'', rec_name = None, encrypted_content = js ''00'',
                 rec_iv = js ''00'', auth_tag = [], created_at = js ''t1'', updated_at = js ''t1''\<rparr>"
  have k: "length (replicate 32 (0 :: byte)) = 32" by simp
  have f: "fst (decrypt P (replicate 32 0) (js ''00'') (js ''00'') [] w) = Inl DecryptionError"
    by (rule decrypt_no_tag)
  note inst = decryption_error_marker [OF k, of P "js ''u1''" "[bad]" w w "js ''a''" None "js ''t1''" w w]
  from inst obtain l where l: "fst (getAllSecrets P (replicate 32 0) (js ''u1'') (Resolved (Some [bad]) None) w) =
            \<lparr>status = 200, json = Secrets l\<rparr>" "length l = 1"
    and m: "(\<exists>e. fst (decrypt P (replicate 32 0) (encrypted_content bad) (rec_iv bad) (auth_tag bad) w) = Inl e)
             \<longrightarrow> content (l ! 0) = js ''[Decryption Error]''"
    by auto
  from m f have c: "content (l ! 0) = js ''[Decryption Error]''"
    by (simp add: bad_def)
  from inst k f l c show "length (replicate 32 (0 :: byte)) = 32 \<and>
    fst (decrypt P (replicate 32 0) (js ''00'') (js ''00'') [] w) = Inl DecryptionError \<and>
    (\<exists>l. fst (getAllSecrets P (replicate 32 0) (js ''u1'')
              (Resolved (Some [\<lparr>rec_id = js ''a'', rec_name = None, encrypted_content = js ''00'',
                 rec_iv = js ''00'', auth_tag = [], created_at = js ''t1'', updated_at = js ''t1''\<rparr>]) None) w) =
            \<lparr>status = 200, json = Secrets l\<rparr> \<and> length l = 1 \<and>
          content (l ! 0) = js ''[Decryption Error]'') \<and>
    (\<exists>r. fst (encrypt P (replicate 32 0) (js ''[Decryption Error]'') w) = Inr r \<and>
       fst (decrypt P (replicate 32 0) (encryptedContent r) (iv r) (authTag r) w) = Inr (js ''[Decryption Error]'') \<and>
       fst (decrypt P (replicate 32 0) (encryptedContent r) (iv r) [] w) = Inl DecryptionError \<and>
       fst (getAllSecrets P (replicate 32 0) (js ''u1'') (Resolved (Some [stored (js ''a'') None (js ''t1'') r]) None) w) =
       fst (getAllSecrets P (replicate 32 0) (js ''u1'')
              (Resolved (Some [(stored (js ''a'') None (js ''t1'') r)\<lparr>auth_tag := []\<rparr>]) None) w))"
    unfolding bad_def by blast
qed

section \<open>Tampering with an envelope, and decrypting under another key\<close>

lemma flip_bit_byte: "i < 8 \<Longrightarrow> flip_bit i (b :: byte) \<noteq> b"
proof
  assume i: "i < 8" and eq: "flip_bit i b = b"
  have "bit (flip_bit i b) i \<longleftrightarrow> \<not> bit b i"
    using i by (simp add: bit_flip_bit_iff)
  with eq show False by simp
qed

lemma flip_differs: "j < length bs \<Longrightarrow> i < 8 \<Longrightarrow> flip j i bs \<noteq> bs"
  by (metis flip_def flip_bit_byte nth_list_update_eq)

lemma length_flip: "length (flip j i bs) = length bs"
  by (simp add: flip_def)

text \<open>
  A flipped bit in the tag of an envelope is always found: the tag that \<open>decrypt\<close>
  computes is the one \<open>encrypt\<close> wrote. For another ciphertext or nonce the outcome is
  that of the tag comparison, which is the cipher's to decide.
\<close>

lemma tampered_tag_rejected:
  assumes "length key = 32" and "fst (encrypt P key s w) = Inr r" and "j < 16" and "i < 8"
  shows "fst (decrypt P key (encryptedContent r) (iv r)
    (toString_hex (flip j i (Buffer_from_hex (authTag r)))) w') = Inl DecryptionError"
proof -
  define nonce where "nonce = fst (randomBytes ivLength w)"
  define ct where "ct = gctr P key nonce 0 (utf8_encode s)"
  define t where "t = block_bytes (tag P key nonce ct)"
  have r: "r = \<lparr>encryptedContent = toString_hex ct, iv = toString_hex nonce, authTag = toString_hex t\<rparr>"
    using encrypt_result [OF assms(2)] by (simp add: nonce_def ct_def t_def)
  have n: "nonce \<noteq> []" "length nonce \<le> 128" unfolding nonce_def by (rule nonce_ok)+
  have lt: "length t = 16" by (simp add: t_def length_block_bytes)
  have ne: "flip j i t \<noteq> t" using assms(3,4) lt by (intro flip_differs) simp_all
  have "decrypt_try P key (toString_hex ct) (toString_hex nonce) (toString_hex (flip j i t)) =
      Inl (Error (js ''Unsupported state or unable to authenticate data''))"
    using assms(1) n lt ne
    by (subst decrypt_try_eq)
      (simp_all add: Buffer_from_hex_toString_hex length_flip length_toString_hex t_def [symmetric])
  then show ?thesis
    by (simp add: decrypt_fst r Buffer_from_hex_toString_hex)
qed

lemma tampered_text_rejected_unless:
  assumes "length key = 32" and "fst (encrypt P key s w) = Inr r"
    and "length nonce' = 16"
  shows "fst (decrypt P key (toString_hex ct') (toString_hex nonce') (authTag r) w') =
    (if block_bytes (tag P key nonce' ct') = Buffer_from_hex (authTag r)
     then Inr (utf8_decode (gctr P key nonce' 0 ct')) else Inl DecryptionError)"
proof -
  define nonce where "nonce = fst (randomBytes ivLength w)"
  define ct where "ct = gctr P key nonce 0 (utf8_encode s)"
  define t where "t = block_bytes (tag P key nonce ct)"
  have r: "r = \<lparr>encryptedContent = toString_hex ct, iv = toString_hex nonce, authTag = toString_hex t\<rparr>"
    using encrypt_result [OF assms(2)] by (simp add: nonce_def ct_def t_def)
  have n: "nonce' \<noteq> []" "length nonce' \<le> 128" using assms(3) by auto
  have lt: "length t = 16" by (simp add: t_def length_block_bytes)
  have "decrypt_try P key (toString_hex ct') (toString_hex nonce') (toString_hex t) =
      (if block_bytes (tag P key nonce' ct') = t
       then Inr (utf8_decode (gctr P key nonce' 0 ct'))
       else Inl (Error (js ''Unsupported state or unable to authenticate data'')))"
    using assms(1) n lt
    by (subst decrypt_try_eq)
      (simp_all add: Buffer_from_hex_toString_hex length_toString_hex length_block_bytes)
  then show ?thesis
    by (simp add: decrypt_fst r Buffer_from_hex_toString_hex)
qed

text \<open>
  An envelope made under one key and opened under another: \<open>decrypt\<close> throws unless the
  other key gives the nonce and the ciphertext the same 16 tag bytes. That no other key
  does is the cipher's to warrant; by counting alone it cannot hold for all keys, there
  being more keys of 32 bytes than tags of 128 bits.
\<close>

lemma wrong_key_rejected_unless:
  assumes "length K2 = 32" and "fst (encrypt P K1 s w) = Inr r"
  shows "(\<exists>d. fst (decrypt P K2 (encryptedContent r) (iv r) (authTag r) w') = Inr d) \<longleftrightarrow>
    block_bytes (tag P K2 (Buffer_from_hex (iv r)) (Buffer_from_hex (encryptedContent r)))
      = block_bytes (tag P K1 (Buffer_from_hex (iv r)) (Buffer_from_hex (encryptedContent r)))"
proof -
  note r = encrypt_result [OF assms(2)]
  have "Buffer_from_hex (iv r) \<noteq> []" "length (Buffer_from_hex (iv r)) \<le> 128"
    "length (Buffer_from_hex (authTag r)) = 16" "even (length (encryptedContent r))"
    by (subst r, simp add: Buffer_from_hex_toString_hex nonce_ok length_block_bytes
        length_toString_hex)+
  moreover have "Buffer_from_hex (authTag r)
      = block_bytes (tag P K1 (Buffer_from_hex (iv r)) (Buffer_from_hex (encryptedContent r)))"
    by (subst (1 2 3) r) (simp add: Buffer_from_hex_toString_hex)
  ultimately show ?thesis
    using decrypt_succeeds_iff [OF assms(1), of P "encryptedContent r" "iv r" "authTag r" w']
    by (simp add: length_block_bytes)
qed

lemma card_keys: "card {k :: buffer. length k = 32} = 256 ^ 32"
proof -
  have "card {k :: buffer. set k \<subseteq> UNIV \<and> length k = 32} = card (UNIV :: byte set) ^ 32"
    by (rule card_lists_length_eq) simp
  then show ?thesis by (simp add: card_word)
qed

lemma tag_collision:
  "\<exists>K1 K2. length K1 = 32 \<and> length K2 = 32 \<and> K1 \<noteq> K2 \<and> tag P K1 nonce ct = tag P K2 nonce ct"
proof (rule ccontr)
  assume no: "\<not> ?thesis"
  let ?A = "{k :: buffer. length k = 32}"
  let ?f = "\<lambda>k. tag P k nonce ct"
  from no have "inj_on ?f ?A"
    by (auto simp: inj_on_def)
  then have "card ?A \<le> card (UNIV :: 128 word set)"
    by (intro card_inj_on_le) simp_all
  then have "(256 :: nat) ^ 32 \<le> 2 ^ 128"
    by (simp add: card_keys card_word)
  then show False by simp
qed

text \<open>
  A surrogate without its partner has no UTF-8 encoding: it comes back as U+FFFD.
\<close>

lemma lone_surrogate_replaced: "utf8_decode (utf8_encode [0xD800]) = [0xFFFD]"
  by (simp add: utf8_decode_def decoder0_def enc1_def emit_def)

end
